theory Spec2Isabelle
  imports Main "HOL-Library.Sublist"
begin

section \<open>Values of the decoded payload\<close>

text \<open>
  \<open>response.json()\<close> yields a Python value built from \<open>None\<close>, booleans, integers,
  floats, strings, lists and dicts. Floats are kept abstract (type \<open>'f\<close>): no property
  below depends on floating-point arithmetic, only on whether a conversion returns or
  raises. A dict is an association list with distinct keys, read with \<open>map_of\<close>.
\<close>

datatype 'f json =
    JNull
  | JBool bool
  | JInt int
  | JFloat 'f
  | JStr string
  | JArr "'f json list"
  | JObj "(string \<times> 'f json) list"

text \<open>The exceptions that the update cycle can meet.\<close>

datatype exn =
    RequestException
  | ValueError
  | TypeError
  | AttributeError
  | OverflowError

text \<open>
  Keys of the two dicts \<open>current_aircraft\<close> and \<open>aircraft_tracks\<close>. A string is equal
  only to the same string and \<open>None\<close> only to \<open>None\<close>; booleans, integers and floats
  compare by numeric value (\<open>1 == 1.0 == True\<close>), which the parameter \<open>num_key\<close>
  of the environment abstracts.
\<close>

datatype 'k key = KNone | KStr string | KNum 'k

section \<open>The primitives that are not part of the repository\<close>

text \<open>
  \<open>float_of_str\<close> is Python's \<open>float\<close> on a string (\<open>None\<close>: \<open>ValueError\<close>),
  \<open>float_of_int\<close> is \<open>float\<close> on an integer (\<open>None\<close>: \<open>OverflowError\<close>),
  \<open>haversine\<close> is the library call \<open>haversine(p, q, unit=Unit.MILES)\<close>, which may
  raise, and \<open>num_key\<close> sends a number to its class under Python's key equality.
\<close>

record ('f, 'k) env =
  float_of_str :: "string \<Rightarrow> 'f option"
  float_of_int :: "int \<Rightarrow> 'f option"
  haversine :: "'f \<times> 'f \<Rightarrow> 'f json \<times> 'f json \<Rightarrow> exn + 'f"
  num_key :: "'f json \<Rightarrow> 'k"

text \<open>
  The configuration constants of the module that the update cycle reads. The receiver
  coordinates are placeholders in the source; \<open>MAX_TRACK_POINTS = 10\<close> and
  \<open>KEEP_ALL_TRACKS = 0\<close> are its shipped values.
\<close>

record 'f config =
  RECEIVER_LAT :: 'f
  RECEIVER_LON :: 'f
  MAX_TRACK_POINTS :: int
  KEEP_ALL_TRACKS :: int

section \<open>Python operations used by the cycle\<close>

text \<open>\<open>d.get(k, default)\<close> on a dict, and on any value: only a dict has the method.\<close>

definition dict_get :: "(string \<times> 'f json) list \<Rightarrow> string \<Rightarrow> 'f json \<Rightarrow> 'f json" where
  "dict_get kvs k dflt = (case map_of kvs k of None \<Rightarrow> dflt | Some v \<Rightarrow> v)"

definition py_get :: "'f json \<Rightarrow> string \<Rightarrow> 'f json \<Rightarrow> exn + 'f json" where
  "py_get d k dflt =
     (case d of JObj kvs \<Rightarrow> Inr (dict_get kvs k dflt) | _ \<Rightarrow> Inl AttributeError)"

text \<open>
  \<open>for ac in v\<close>: a list yields its elements, a dict its keys, a string its
  characters; anything else is not iterable.
\<close>

definition py_iter :: "'f json \<Rightarrow> exn + 'f json list" where
  "py_iter v =
     (case v of
        JArr xs \<Rightarrow> Inr xs
      | JObj kvs \<Rightarrow> Inr (map (\<lambda>kv. JStr (fst kv)) kvs)
      | JStr s \<Rightarrow> Inr (map (\<lambda>c. JStr [c]) s)
      | _ \<Rightarrow> Inl TypeError)"

text \<open>\<open>float(v)\<close>.\<close>

definition py_float :: "('f, 'k) env \<Rightarrow> 'f json \<Rightarrow> exn + 'f" where
  "py_float E v =
     (case v of
        JNull \<Rightarrow> Inl TypeError
      | JBool b \<Rightarrow>
          (case float_of_int E (if b then 1 else 0) of
             None \<Rightarrow> Inl OverflowError | Some f \<Rightarrow> Inr f)
      | JInt n \<Rightarrow>
          (case float_of_int E n of None \<Rightarrow> Inl OverflowError | Some f \<Rightarrow> Inr f)
      | JFloat f \<Rightarrow> Inr f
      | JStr s \<Rightarrow>
          (case float_of_str E s of None \<Rightarrow> Inl ValueError | Some f \<Rightarrow> Inr f)
      | JArr xs \<Rightarrow> Inl TypeError
      | JObj kvs \<Rightarrow> Inl TypeError)"

text \<open>Hashing a value to use it as a set element or dict key.\<close>

definition py_key :: "('f, 'k) env \<Rightarrow> 'f json \<Rightarrow> exn + 'k key" where
  "py_key E v =
     (case v of
        JNull \<Rightarrow> Inr KNone
      | JStr s \<Rightarrow> Inr (KStr s)
      | JArr xs \<Rightarrow> Inl TypeError
      | JObj kvs \<Rightarrow> Inl TypeError
      | _ \<Rightarrow> Inr (KNum (num_key E v)))"

text \<open>\<open>s.strip()\<close> on ASCII text; only a string has the method.\<close>

definition is_space :: "char \<Rightarrow> bool" where
  "is_space c = (of_char c \<in> {9, 10, 11, 12, 13, 28, 29, 30, 31, 32 :: nat})"

definition strip :: "string \<Rightarrow> string" where
  "strip s = rev (dropWhile is_space (rev (dropWhile is_space s)))"

definition py_strip :: "'f json \<Rightarrow> exn + string" where
  "py_strip v = (case v of JStr s \<Rightarrow> Inr (strip s) | _ \<Rightarrow> Inl AttributeError)"

text \<open>
  \<open>xs[start:]\<close> for an integer \<open>start\<close>: a negative start counts from the end and is
  clamped at the front of the list.
\<close>

definition py_slice_from :: "int \<Rightarrow> 'a list \<Rightarrow> 'a list" where
  "py_slice_from start xs =
     (if start < 0 then drop (nat (int (length xs) + start)) xs
      else drop (nat start) xs)"

section \<open>State of the tracker\<close>

record 'f aircraft =
  ac_lat :: "'f json"
  ac_lon :: "'f json"
  ac_alt :: 'f
  ac_flight :: string
  ac_gs :: "'f json"

type_synonym 'f track = "('f json \<times> 'f json) list"

record ('f, 'k) tracker =
  all_distances :: "'f list"
  all_altitudes :: "'f list"
  all_groundspeeds :: "'f option list"
  current_aircraft :: "'k key \<rightharpoonup> 'f aircraft"
  aircraft_tracks :: "'k key \<rightharpoonup> 'f track"

text \<open>The state built by \<open>__init__\<close>.\<close>

definition init :: "('f, 'k) tracker" where
  "init = \<lparr> all_distances = [], all_altitudes = [], all_groundspeeds = [],
            current_aircraft = Map.empty, aircraft_tracks = Map.empty \<rparr>"

text \<open>
  The state inside \<open>fetch_aircraft_data\<close> while the loop runs: the object itself, the
  local variables, and the number of calls of \<open>time.time()\<close> made so far in this cycle.
\<close>

record ('f, 'k) frame =
  self :: "('f, 'k) tracker"
  new_distances :: "'f list"
  new_altitudes :: "'f list"
  new_groundspeeds :: "'f option list"
  temp_aircraft_seen :: "'k key \<rightharpoonup> 'f aircraft"
  current_hex_codes :: "'k key set"
  time_calls :: nat

definition enter :: "('f, 'k) tracker \<Rightarrow> ('f, 'k) frame" where
  "enter st = \<lparr> self = st, new_distances = [], new_altitudes = [],
                 new_groundspeeds = [], temp_aircraft_seen = Map.empty,
                 current_hex_codes = {}, time_calls = 0 \<rparr>"

section \<open>One update cycle\<close>

text \<open>
  The groundspeed of a record: \<open>None\<close> unless the field is present, is not \<open>'N/A'\<close>
  and converts; only \<open>ValueError\<close> is caught.
\<close>

definition gs_float_of :: "('f, 'k) env \<Rightarrow> 'f json \<Rightarrow> exn + 'f option" where
  "gs_float_of E gs_val =
     (if gs_val \<noteq> JNull \<and> gs_val \<noteq> JStr ''N/A'' then
        (case py_float E gs_val of
           Inr f \<Rightarrow> Inr (Some f)
         | Inl ValueError \<Rightarrow> Inr None
         | Inl e \<Rightarrow> Inl e)
      else Inr None)"

text \<open>
  The track-line logic of one record: read the stored track (or a new list), append the
  position, cut to the last \<open>MAX_TRACK_POINTS\<close> entries, store.
\<close>

definition update_track ::
  "'f config \<Rightarrow> 'k key \<Rightarrow> 'f json \<times> 'f json \<Rightarrow> ('k key \<rightharpoonup> 'f track) \<Rightarrow> ('k key \<rightharpoonup> 'f track)" where
  "update_track C hex_code pos tracks =
     (let track = (case tracks hex_code of None \<Rightarrow> [] | Some t \<Rightarrow> t) @ [pos];
          track = (if int (length track) > MAX_TRACK_POINTS C
                   then py_slice_from (- MAX_TRACK_POINTS C) track else track)
      in tracks(hex_code \<mapsto> track))"

text \<open>
  The body of the loop for one record \<open>ac\<close>. The result is the exception that left the
  body, if any, and the frame at that point; \<open>(None, fr)\<close> with \<open>fr\<close> unchanged is
  \<open>continue\<close>. \<open>clock n\<close> is the text of the \<open>n\<close>-th reading of \<open>time.time()\<close> in
  this cycle; the default argument of \<open>ac.get('hex', ...)\<close> is evaluated for every record
  that reaches the line.
\<close>

definition process_record ::
  "('f, 'k) env \<Rightarrow> 'f config \<Rightarrow> (nat \<Rightarrow> string) \<Rightarrow> ('f, 'k) frame \<Rightarrow> 'f json
     \<Rightarrow> exn option \<times> ('f, 'k) frame" where
  "process_record E C clock fr ac =
     (case ac of
        JObj kvs \<Rightarrow>
          (let lat = dict_get kvs ''lat'' JNull;
               lon = dict_get kvs ''lon'' JNull;
               alt = dict_get kvs ''alt_baro'' (dict_get kvs ''alt_geom'' JNull)
           in if lat = JNull \<or> lon = JNull \<or> alt = JNull then (None, fr)
              else
                (let alt = (if alt = JStr ''ground'' then JInt 0 else alt) in
                 case py_float E alt of
                   Inl ValueError \<Rightarrow> (None, fr)
                 | Inl e \<Rightarrow> (Some e, fr)
                 | Inr alt_ft \<Rightarrow>
                     (case haversine E (RECEIVER_LAT C, RECEIVER_LON C) (lat, lon) of
                        Inl e \<Rightarrow> (Some e, fr)
                      | Inr dist_miles \<Rightarrow>
                          (case gs_float_of E (dict_get kvs ''gs'' JNull) of
                             Inl e \<Rightarrow> (Some e, fr)
                           | Inr gs_float \<Rightarrow>
                               (let fr1 = fr\<lparr> new_distances := new_distances fr @ [dist_miles],
                                               new_altitudes := new_altitudes fr @ [alt_ft],
                                               new_groundspeeds := new_groundspeeds fr @ [gs_float],
                                               time_calls := Suc (time_calls fr) \<rparr>
                                in case py_key E (dict_get kvs ''hex'' (JStr (clock (time_calls fr)))) of
                                     Inl e \<Rightarrow> (Some e, fr1)
                                   | Inr hex_code \<Rightarrow>
                                       (let fr2 = fr1\<lparr> current_hex_codes :=
                                                          insert hex_code (current_hex_codes fr1) \<rparr>
                                        in case py_strip (dict_get kvs ''flight'' (JStr ''N/A'')) of
                                             Inl e \<Rightarrow> (Some e, fr2)
                                           | Inr label \<Rightarrow>
                                               (None,
                                                fr2\<lparr> temp_aircraft_seen :=
                                                        (temp_aircraft_seen fr2)(hex_code \<mapsto>
                                                          \<lparr> ac_lat = lat, ac_lon = lon, ac_alt = alt_ft,
                                                            ac_flight = label,
                                                            ac_gs = dict_get kvs ''gs'' (JStr ''N/A'') \<rparr>),
                                                      self := (self fr2)\<lparr> aircraft_tracks :=
                                                        update_track C hex_code (lat, lon)
                                                          (aircraft_tracks (self fr2)) \<rparr> \<rparr>)))))))
      | _ \<Rightarrow> (Some AttributeError, fr))"

text \<open>The loop \<open>for ac in ...\<close>: it stops at the first exception.\<close>

fun for_aircraft ::
  "('f, 'k) env \<Rightarrow> 'f config \<Rightarrow> (nat \<Rightarrow> string) \<Rightarrow> ('f, 'k) frame \<Rightarrow> 'f json list
     \<Rightarrow> exn option \<times> ('f, 'k) frame" where
  "for_aircraft E C clock fr [] = (None, fr)"
| "for_aircraft E C clock fr (ac # acs) =
     (case process_record E C clock fr ac of
        (Some e, fr') \<Rightarrow> (Some e, fr')
      | (None, fr') \<Rightarrow> for_aircraft E C clock fr' acs)"

text \<open>
  What \<open>requests.get\<close>, \<open>raise_for_status\<close> and \<open>response.json()\<close> deliver together:
  an exception, or the decoded payload.
\<close>

datatype 'f fetched = Raised exn | Payload "'f json"

text \<open>The statements after the loop: extend the three series, replace the table, prune.\<close>

definition commit :: "'f config \<Rightarrow> ('f, 'k) frame \<Rightarrow> ('f, 'k) tracker" where
  "commit C fr =
     (let s = self fr;
          s = s\<lparr> all_distances := all_distances s @ new_distances fr \<rparr>;
          s = s\<lparr> all_altitudes := all_altitudes s @ new_altitudes fr \<rparr>;
          s = s\<lparr> all_groundspeeds := all_groundspeeds s @ new_groundspeeds fr \<rparr>;
          s = s\<lparr> current_aircraft := temp_aircraft_seen fr \<rparr>
      in if KEEP_ALL_TRACKS C = 0
         then s\<lparr> aircraft_tracks := aircraft_tracks s |` current_hex_codes fr \<rparr>
         else s)"

text \<open>
  \<open>fetch_aircraft_data\<close>: the returned boolean and the object afterwards. Both
  \<open>except\<close> clauses print and fall through to \<open>return False\<close>.
\<close>

definition fetch_aircraft_data ::
  "('f, 'k) env \<Rightarrow> 'f config \<Rightarrow> (nat \<Rightarrow> string) \<Rightarrow> 'f fetched \<Rightarrow> ('f, 'k) tracker
     \<Rightarrow> bool \<times> ('f, 'k) tracker" where
  "fetch_aircraft_data E C clock got st =
     (case got of
        Raised e \<Rightarrow> (False, st)
      | Payload data \<Rightarrow>
          (case py_get data ''aircraft'' (JArr []) of
             Inl e \<Rightarrow> (False, st)
           | Inr coll \<Rightarrow>
               (case py_iter coll of
                  Inl e \<Rightarrow> (False, st)
                | Inr acs \<Rightarrow>
                    (case for_aircraft E C clock (enter st) acs of
                       (Some e, fr) \<Rightarrow> (False, self fr)
                     | (None, fr) \<Rightarrow> (True, commit C fr)))))"

text \<open>
  \<open>update_data\<close> runs on every timer tick: it calls \<open>fetch_aircraft_data\<close> and
  then only redraws. A session is the sequence of ticks, each with its clock readings
  and with what the receiver delivered.
\<close>

fun run ::
  "('f, 'k) env \<Rightarrow> 'f config \<Rightarrow> ('f, 'k) tracker \<Rightarrow> ((nat \<Rightarrow> string) \<times> 'f fetched) list
     \<Rightarrow> ('f, 'k) tracker" where
  "run E C st [] = st"
| "run E C st (tick # ticks) =
     run E C (snd (fetch_aircraft_data E C (fst tick) (snd tick) st)) ticks"

section \<open>The groundspeed plots\<close>

text \<open>
  \<open>update_scatter_gs_plot\<close> and \<open>update_hist_gs_plot\<close>: the data handed to
  \<open>scatter\<close> and to \<open>hist\<close>, or \<open>None\<close> when the filtered list is empty and nothing
  is drawn.
\<close>

definition valid_data :: "('f, 'k) tracker \<Rightarrow> ('f \<times> 'f) list" where
  "valid_data st =
     concat (map (\<lambda>(gs, alt). case gs of None \<Rightarrow> [] | Some g \<Rightarrow> [(g, alt)])
       (zip (all_groundspeeds st) (all_altitudes st)))"

definition update_scatter_gs_plot :: "('f, 'k) tracker \<Rightarrow> ('f list \<times> 'f list) option" where
  "update_scatter_gs_plot st =
     (if valid_data st \<noteq> [] then Some (map fst (valid_data st), map snd (valid_data st))
      else None)"

definition valid_gs :: "('f, 'k) tracker \<Rightarrow> 'f list" where
  "valid_gs st =
     concat (map (\<lambda>gs. case gs of None \<Rightarrow> [] | Some g \<Rightarrow> [g]) (all_groundspeeds st))"

definition update_hist_gs_plot :: "('f, 'k) tracker \<Rightarrow> 'f list option" where
  "update_hist_gs_plot st = (if valid_gs st \<noteq> [] then Some (valid_gs st) else None)"

section \<open>Observations\<close>

text \<open>
  What one record contributes when the loop body runs to its end: the key, the
  position, the converted altitude, the groundspeed or \<open>None\<close>, the distance and the
  table entry.
\<close>

record ('f, 'k) observation =
  ob_key :: "'k key"
  ob_pos :: "'f json \<times> 'f json"
  ob_alt :: 'f
  ob_gs :: "'f option"
  ob_dist :: 'f
  ob_entry :: "'f aircraft"

text \<open>The altitude that the loop body converts: barometric first, \<open>'ground'\<close> as 0.\<close>

definition altitude_field :: "(string \<times> 'f json) list \<Rightarrow> 'f json" where
  "altitude_field kvs =
     (let alt = dict_get kvs ''alt_baro'' (dict_get kvs ''alt_geom'' JNull)
      in if alt = JStr ''ground'' then JInt 0 else alt)"

text \<open>
  The drop rules: a record without latitude, longitude or altitude, or whose altitude
  is text that does not convert, is skipped with \<open>continue\<close>.
\<close>

definition dropped :: "('f, 'k) env \<Rightarrow> 'f json \<Rightarrow> bool" where
  "dropped E ac =
     (case ac of
        JObj kvs \<Rightarrow>
          dict_get kvs ''lat'' JNull = JNull \<or> dict_get kvs ''lon'' JNull = JNull
          \<or> altitude_field kvs = JNull
          \<or> py_float E (altitude_field kvs) = Inl ValueError
      | _ \<Rightarrow> False)"

text \<open>
  The outcome of the loop body on one record, as a value: an exception, a drop
  (\<open>Inr None\<close>) or an observation. \<open>now\<close> is the clock reading available to the record.
\<close>

definition observe ::
  "('f, 'k) env \<Rightarrow> 'f config \<Rightarrow> string \<Rightarrow> 'f json \<Rightarrow> exn + ('f, 'k) observation option" where
  "observe E C now ac =
     (case ac of
        JObj kvs \<Rightarrow>
          if dict_get kvs ''lat'' JNull = JNull \<or> dict_get kvs ''lon'' JNull = JNull
             \<or> altitude_field kvs = JNull
          then Inr None
          else
            (case py_float E (altitude_field kvs) of
               Inl ValueError \<Rightarrow> Inr None
             | Inl e \<Rightarrow> Inl e
             | Inr alt_ft \<Rightarrow>
                 (case haversine E (RECEIVER_LAT C, RECEIVER_LON C)
                         (dict_get kvs ''lat'' JNull, dict_get kvs ''lon'' JNull) of
                    Inl e \<Rightarrow> Inl e
                  | Inr dist_miles \<Rightarrow>
                      (case gs_float_of E (dict_get kvs ''gs'' JNull) of
                         Inl e \<Rightarrow> Inl e
                       | Inr gs_float \<Rightarrow>
                           (case py_key E (dict_get kvs ''hex'' (JStr now)) of
                              Inl e \<Rightarrow> Inl e
                            | Inr hex_code \<Rightarrow>
                                (case py_strip (dict_get kvs ''flight'' (JStr ''N/A'')) of
                                   Inl e \<Rightarrow> Inl e
                                 | Inr label \<Rightarrow>
                                     Inr (Some
                                       \<lparr> ob_key = hex_code,
                                         ob_pos = (dict_get kvs ''lat'' JNull, dict_get kvs ''lon'' JNull),
                                         ob_alt = alt_ft, ob_gs = gs_float,
                                         ob_dist = dist_miles,
                                         ob_entry =
                                           \<lparr> ac_lat = dict_get kvs ''lat'' JNull,
                                             ac_lon = dict_get kvs ''lon'' JNull,
                                             ac_alt = alt_ft, ac_flight = label,
                                             ac_gs = dict_get kvs ''gs'' (JStr ''N/A'') \<rparr> \<rparr>))))))
      | _ \<Rightarrow> Inl AttributeError)"

text \<open>
  The observations of a list of records, in order, up to its end or to the first
  exception; \<open>n\<close> counts the clock readings already used.
\<close>

fun observations ::
  "('f, 'k) env \<Rightarrow> 'f config \<Rightarrow> (nat \<Rightarrow> string) \<Rightarrow> nat \<Rightarrow> 'f json list
     \<Rightarrow> exn option \<times> ('f, 'k) observation list" where
  "observations E C clock n [] = (None, [])"
| "observations E C clock n (ac # acs) =
     (case observe E C (clock n) ac of
        Inl e \<Rightarrow> (Some e, [])
      | Inr None \<Rightarrow> observations E C clock n acs
      | Inr (Some ob) \<Rightarrow>
          (fst (observations E C clock (Suc n) acs),
           ob # snd (observations E C clock (Suc n) acs)))"

text \<open>The records that the loop iterates over, when the payload has them.\<close>

definition records_of :: "'f json \<Rightarrow> 'f json list" where
  "records_of data =
     (case py_get data ''aircraft'' (JArr []) of
        Inl e \<Rightarrow> []
      | Inr coll \<Rightarrow> (case py_iter coll of Inl e \<Rightarrow> [] | Inr acs \<Rightarrow> acs))"

definition accepted ::
  "('f, 'k) env \<Rightarrow> 'f config \<Rightarrow> (nat \<Rightarrow> string) \<Rightarrow> 'f json \<Rightarrow> ('f, 'k) observation list" where
  "accepted E C clock data = snd (observations E C clock 0 (records_of data))"

text \<open>
  The records from which the observations of a list were made, in the same order: the
  \<open>i\<close>-th of them is the record behind the \<open>i\<close>-th observation.
\<close>

fun sources ::
  "('f, 'k) env \<Rightarrow> 'f config \<Rightarrow> (nat \<Rightarrow> string) \<Rightarrow> nat \<Rightarrow> 'f json list \<Rightarrow> 'f json list" where
  "sources E C clock n [] = []"
| "sources E C clock n (ac # acs) =
     (case observe E C (clock n) ac of
        Inl e \<Rightarrow> []
      | Inr None \<Rightarrow> sources E C clock n acs
      | Inr (Some ob) \<Rightarrow> ac # sources E C clock (Suc n) acs)"

definition accepted_records ::
  "('f, 'k) env \<Rightarrow> 'f config \<Rightarrow> (nat \<Rightarrow> string) \<Rightarrow> 'f json \<Rightarrow> 'f json list" where
  "accepted_records E C clock data = sources E C clock 0 (records_of data)"

text \<open>The effect on the frame of a loop body that runs to its end with observation \<open>ob\<close>.\<close>

definition record_obs ::
  "'f config \<Rightarrow> ('f, 'k) observation \<Rightarrow> ('f, 'k) frame \<Rightarrow> ('f, 'k) frame" where
  "record_obs C ob fr =
     fr\<lparr> new_distances := new_distances fr @ [ob_dist ob],
         new_altitudes := new_altitudes fr @ [ob_alt ob],
         new_groundspeeds := new_groundspeeds fr @ [ob_gs ob],
         time_calls := Suc (time_calls fr),
         current_hex_codes := insert (ob_key ob) (current_hex_codes fr),
         temp_aircraft_seen := (temp_aircraft_seen fr)(ob_key ob \<mapsto> ob_entry ob),
         self := (self fr)\<lparr> aircraft_tracks :=
                   update_track C (ob_key ob) (ob_pos ob) (aircraft_tracks (self fr)) \<rparr> \<rparr>"

text \<open>The table and the tracks that a list of observations builds, in order.\<close>

definition table_of :: "('f, 'k) observation list \<Rightarrow> ('k key \<rightharpoonup> 'f aircraft)" where
  "table_of obs = foldl (\<lambda>m ob. m(ob_key ob \<mapsto> ob_entry ob)) Map.empty obs"

definition tracks_after ::
  "'f config \<Rightarrow> ('k key \<rightharpoonup> 'f track) \<Rightarrow> ('f, 'k) observation list \<Rightarrow> ('k key \<rightharpoonup> 'f track)" where
  "tracks_after C tracks obs =
     foldl (\<lambda>m ob. update_track C (ob_key ob) (ob_pos ob) m) tracks obs"

text \<open>The last \<open>n\<close> elements of a list.\<close>

definition last_n :: "nat \<Rightarrow> 'a list \<Rightarrow> 'a list" where
  "last_n n xs = drop (length xs - n) xs"

text \<open>Every stored track is within the cap.\<close>

definition tracks_bounded :: "'f config \<Rightarrow> ('f, 'k) tracker \<Rightarrow> bool" where
  "tracks_bounded C st =
     (\<forall>k t. aircraft_tracks st k = Some t \<longrightarrow> int (length t) \<le> MAX_TRACK_POINTS C)"

text \<open>The three series have one length.\<close>

definition aligned :: "('f, 'k) tracker \<Rightarrow> bool" where
  "aligned st =
     (length (all_distances st) = length (all_altitudes st)
      \<and> length (all_altitudes st) = length (all_groundspeeds st))"

text \<open>
  A payload that reaches the loop: a dict whose \<open>'aircraft'\<close> entry, or the default
  empty list, can be iterated.
\<close>

definition iterable :: "'f json \<Rightarrow> bool" where
  "iterable data =
     (case py_get data ''aircraft'' (JArr []) of
        Inl e \<Rightarrow> False
      | Inr coll \<Rightarrow> (case py_iter coll of Inl e \<Rightarrow> False | Inr acs \<Rightarrow> True))"

text \<open>The observations made in a cycle before it ends, whatever it was given.\<close>

definition seen ::
  "('f, 'k) env \<Rightarrow> 'f config \<Rightarrow> (nat \<Rightarrow> string) \<Rightarrow> 'f fetched \<Rightarrow> ('f, 'k) observation list" where
  "seen E C clock got = (case got of Raised e \<Rightarrow> [] | Payload data \<Rightarrow> accepted E C clock data)"

text \<open>The positions reported for one key, in order.\<close>

definition positions_of :: "'k key \<Rightarrow> ('f, 'k) observation list \<Rightarrow> 'f track" where
  "positions_of k obs = map ob_pos (filter (\<lambda>ob. ob_key ob = k) obs)"

definition track_of :: "('f, 'k) tracker \<Rightarrow> 'k key \<Rightarrow> 'f track" where
  "track_of st k = (case aircraft_tracks st k of None \<Rightarrow> [] | Some t \<Rightarrow> t)"

text \<open>
  Records whose fields have the kinds of value that the loop body handles: altitude and
  groundspeed are absent, numbers that convert, or text; the key can be hashed; the
  label is text; the distance routine accepts the position when there is one.
\<close>

definition scalar :: "('f, 'k) env \<Rightarrow> 'f json \<Rightarrow> bool" where
  "scalar E v =
     (case v of
        JArr xs \<Rightarrow> False
      | JObj kvs \<Rightarrow> False
      | JInt n \<Rightarrow> float_of_int E n \<noteq> None
      | JBool b \<Rightarrow> float_of_int E (if b then 1 else 0) \<noteq> None
      | _ \<Rightarrow> True)"

definition hashable :: "'f json \<Rightarrow> bool" where
  "hashable v = (case v of JArr xs \<Rightarrow> False | JObj kvs \<Rightarrow> False | _ \<Rightarrow> True)"

definition is_text :: "'f json \<Rightarrow> bool" where
  "is_text v = (case v of JStr s \<Rightarrow> True | _ \<Rightarrow> False)"

definition locatable :: "('f, 'k) env \<Rightarrow> 'f config \<Rightarrow> 'f json \<times> 'f json \<Rightarrow> bool" where
  "locatable E C pos =
     (case haversine E (RECEIVER_LAT C, RECEIVER_LON C) pos of Inl e \<Rightarrow> False | Inr d \<Rightarrow> True)"

definition plain :: "('f, 'k) env \<Rightarrow> 'f config \<Rightarrow> 'f json \<Rightarrow> bool" where
  "plain E C ac =
     (case ac of
        JObj kvs \<Rightarrow>
          scalar E (altitude_field kvs)
          \<and> scalar E (dict_get kvs ''gs'' JNull)
          \<and> hashable (dict_get kvs ''hex'' JNull)
          \<and> is_text (dict_get kvs ''flight'' (JStr ''N/A''))
          \<and> (dict_get kvs ''lat'' JNull = JNull \<or> dict_get kvs ''lon'' JNull = JNull
               \<or> locatable E C (dict_get kvs ''lat'' JNull, dict_get kvs ''lon'' JNull))
      | _ \<Rightarrow> False)"

text \<open>A record without the \<open>'hex'\<close> field.\<close>

definition anonymous :: "'f json \<Rightarrow> bool" where
  "anonymous ac = (case ac of JObj kvs \<Rightarrow> map_of kvs ''hex'' = None | _ \<Rightarrow> False)"

section \<open>Sample inputs\<close>

text \<open>
  An instance of the primitives on which the cycle can be run. Floats are integers,
  \<open>float\<close> accepts text made of decimal digits, and the distance is a stand-in that,
  like the library routine, returns a number for numeric coordinates and raises
  \<open>TypeError\<close> for anything else.
\<close>

definition number :: "int json \<Rightarrow> int option" where
  "number v =
     (case v of
        JInt n \<Rightarrow> Some n
      | JFloat f \<Rightarrow> Some f
      | JBool b \<Rightarrow> Some (if b then 1 else 0)
      | _ \<Rightarrow> None)"

definition digits :: "string \<Rightarrow> int option" where
  "digits s =
     (if s \<noteq> [] \<and> list_all (\<lambda>c. 48 \<le> (of_char c :: nat) \<and> (of_char c :: nat) \<le> 57) s
      then Some (foldl (\<lambda>n c. 10 * n + (int (of_char c) - 48)) 0 s)
      else None)"

definition sample_env :: "(int, int) env" where
  "sample_env =
     \<lparr> float_of_str = digits,
       float_of_int = Some,
       haversine = (\<lambda>rcv pos.
         case (number (fst pos), number (snd pos)) of
           (Some a, Some b) \<Rightarrow> Inr (\<bar>a - fst rcv\<bar> + \<bar>b - snd rcv\<bar>)
         | _ \<Rightarrow> Inl TypeError),
       num_key = (\<lambda>v. case number v of None \<Rightarrow> 0 | Some n \<Rightarrow> n) \<rparr>"

text \<open>The shipped configuration, with the receiver at the origin.\<close>

definition shipped :: "int config" where
  "shipped = \<lparr> RECEIVER_LAT = 0, RECEIVER_LON = 0, MAX_TRACK_POINTS = 10, KEEP_ALL_TRACKS = 0 \<rparr>"

text \<open>A clock whose readings all print alike, as when two records are handled within one tick of it.\<close>

definition stalled_clock :: "nat \<Rightarrow> string" where
  "stalled_clock n = ''1762272000.25''"

text \<open>A record with the fields that the receiver normally sends, and a payload of records.\<close>

definition report :: "string \<Rightarrow> int \<Rightarrow> int \<Rightarrow> int json" where
  "report hex lat lon =
     JObj [(''hex'', JStr hex), (''flight'', JStr ''TEST1   ''), (''lat'', JInt lat),
           (''lon'', JInt lon), (''alt_baro'', JInt 30000), (''gs'', JInt 450)]"

definition snapshot :: "int json list \<Rightarrow> int json" where
  "snapshot acs = JObj [(''now'', JInt 1762272000), (''aircraft'', JArr acs)]"

text \<open>Eleven ticks, each reporting \<open>XYZ\<close> at a new position.\<close>

definition xyz_ticks :: "((nat \<Rightarrow> string) \<times> int fetched) list" where
  "xyz_ticks = map (\<lambda>i. (stalled_clock, Payload (snapshot [report ''XYZ'' i (- i)]))) [1, 2, 3, 4, 5, 6, 7, 8, 9, 10, 11]"

text \<open>A payload with two good reports around a record that has no position.\<close>

definition mixed :: "int json" where
  "mixed = snapshot [report ''a1b2c3'' 1 2, JObj [(''hex'', JStr ''ffffff''), (''alt_baro'', JInt 500)],
                     report ''d4e5f6'' 3 4]"

text \<open>The same key reported twice in one payload.\<close>

definition twice :: "int json" where
  "twice = snapshot [report ''a1b2c3'' 1 2, report ''a1b2c3'' 3 4]"

text \<open>Two payloads: both aircraft are reported, then only the second; and the two ticks with them.\<close>

definition both :: "int json" where
  "both = snapshot [report ''a1b2c3'' 1 2, report ''d4e5f6'' 3 4]"

definition only_second :: "int json" where
  "only_second = snapshot [report ''d4e5f6'' 5 6]"

definition two_ticks :: "((nat \<Rightarrow> string) \<times> int fetched) list" where
  "two_ticks = [(stalled_clock, Payload both), (stalled_clock, Payload only_second)]"

text \<open>The shipped configuration with \<open>MAX_TRACK_POINTS = 0\<close>.\<close>

definition uncapped :: "int config" where
  "uncapped = shipped\<lparr> MAX_TRACK_POINTS := 0 \<rparr>"

text \<open>The shipped configuration with \<open>KEEP_ALL_TRACKS = 1\<close>.\<close>

definition keep_all :: "int config" where
  "keep_all = shipped\<lparr> KEEP_ALL_TRACKS := 1 \<rparr>"

text \<open>A record without \<open>'hex'\<close>, and a payload of two of them.\<close>

definition unidentified :: "int \<Rightarrow> int \<Rightarrow> int json" where
  "unidentified lat lon =
     JObj [(''lat'', JInt lat), (''lon'', JInt lon), (''alt_geom'', JInt 1200)]"

definition strangers :: "int json" where
  "strangers = snapshot [unidentified 1 2, unidentified 3 4]"

text \<open>A good report followed by a record without \<open>'hex'\<close>.\<close>

definition company :: "int json" where
  "company = snapshot [report ''a1b2c3'' 1 2, unidentified 3 4]"

text \<open>A record whose groundspeed is a list.\<close>

definition listed_speed :: "int json" where
  "listed_speed =
     snapshot [JObj [(''hex'', JStr ''a1b2c3''), (''lat'', JInt 1), (''lon'', JInt 2),
                     (''alt_baro'', JInt 30000), (''gs'', JArr [JInt 450])]]"

text \<open>A good report followed by a record whose label is \<open>null\<close>.\<close>

definition half_bad :: "int json" where
  "half_bad =
     snapshot [report ''a1b2c3'' 1 2,
               JObj [(''hex'', JStr ''d4e5f6''), (''flight'', JNull), (''lat'', JInt 3),
                     (''lon'', JInt 4), (''alt_baro'', JInt 500)]]"

text \<open>
  A record whose altitude is a list, and one whose groundspeed is a dict, each followed by
  a good report.
\<close>

definition odd_altitude :: "int json" where
  "odd_altitude =
     snapshot [JObj [(''hex'', JStr ''a1b2c3''), (''lat'', JInt 1), (''lon'', JInt 2),
                     (''alt_baro'', JArr [JInt 30000])],
               report ''d4e5f6'' 3 4]"

definition odd_speed :: "int json" where
  "odd_speed =
     snapshot [JObj [(''hex'', JStr ''a1b2c3''), (''lat'', JInt 1), (''lon'', JInt 2),
                     (''alt_baro'', JInt 30000), (''gs'', JObj [(''knots'', JInt 450)])],
               report ''d4e5f6'' 3 4]"

text \<open>A record without groundspeed, one whose groundspeed is text that is no number, and a good report.\<close>

definition speedless :: "int json" where
  "speedless =
     snapshot [JObj [(''hex'', JStr ''a1b2c3''), (''lat'', JInt 1), (''lon'', JInt 2),
                     (''alt_baro'', JStr ''ground'')],
               JObj [(''hex'', JStr ''0a0b0c''), (''lat'', JInt 3), (''lon'', JInt 4),
                     (''alt_baro'', JInt 700), (''gs'', JStr ''fast'')],
               report ''fedcba'' 5 6]"

text \<open>What the first record of \<open>speedless\<close> is observed as.\<close>

definition silent :: "(int, int) observation" where
  "silent =
     \<lparr> ob_key = KStr ''a1b2c3'', ob_pos = (JInt 1, JInt 2), ob_alt = 0, ob_gs = None,
       ob_dist = 3,
       ob_entry = \<lparr> ac_lat = JInt 1, ac_lon = JInt 2, ac_alt = 0, ac_flight = ''N/A'',
                    ac_gs = JStr ''N/A'' \<rparr> \<rparr>"

section \<open>The loop body as an observation\<close>

lemma process_record_observe:
  "process_record E C clock fr ac =
     (case observe E C (clock (time_calls fr)) ac of
        Inr None \<Rightarrow> (None, fr)
      | Inr (Some ob) \<Rightarrow> (None, record_obs C ob fr)
      | Inl e \<Rightarrow> (Some e, snd (process_record E C clock fr ac)))"
proof (cases ac)
  case (JObj kvs)
  show ?thesis
    unfolding JObj process_record_def observe_def altitude_field_def record_obs_def
    by (simp add: Let_def split: sum.split exn.split)
qed (simp_all add: process_record_def observe_def)

lemma process_record_dropped:
  "observe E C (clock (time_calls fr)) ac = Inr None \<Longrightarrow> process_record E C clock fr ac = (None, fr)"
  using process_record_observe [of E C clock fr ac] by simp

lemma process_record_accepted:
  "observe E C (clock (time_calls fr)) ac = Inr (Some ob) \<Longrightarrow>
   process_record E C clock fr ac = (None, record_obs C ob fr)"
  using process_record_observe [of E C clock fr ac] by simp

lemma process_record_raises:
  "observe E C (clock (time_calls fr)) ac = Inl e \<Longrightarrow> fst (process_record E C clock fr ac) = Some e"
proof -
  assume "observe E C (clock (time_calls fr)) ac = Inl e"
  with process_record_observe [of E C clock fr ac]
  have "process_record E C clock fr ac = (Some e, snd (process_record E C clock fr ac))"
    by simp
  then show ?thesis by (metis fst_conv)
qed

lemma process_record_raises_self:
  assumes "observe E C (clock (time_calls fr)) ac = Inl e"
  shows "self (snd (process_record E C clock fr ac)) = self fr"
proof (cases ac)
  case (JObj kvs)
  from assms show ?thesis
    unfolding JObj process_record_def observe_def altitude_field_def
    by (simp add: Let_def split: sum.splits exn.splits if_splits)
qed (simp_all add: process_record_def)

lemma time_calls_record_obs [simp]: "time_calls (record_obs C ob fr) = Suc (time_calls fr)"
  by (simp add: record_obs_def)

lemma for_aircraft_fst:
  "fst (for_aircraft E C clock fr acs) = fst (observations E C clock (time_calls fr) acs)"
proof (induction acs arbitrary: fr)
  case Nil
  show ?case by simp
next
  case (Cons ac acs)
  show ?case
  proof (cases "observe E C (clock (time_calls fr)) ac")
    case (Inl e)
    then have "fst (process_record E C clock fr ac) = Some e"
      by (rule process_record_raises)
    with Inl show ?thesis by (simp add: case_prod_unfold)
  next
    case (Inr r)
    show ?thesis
    proof (cases r)
      case None
      with Inr Cons.IH [of fr] show ?thesis by (simp add: process_record_dropped)
    next
      case (Some ob)
      with Inr Cons.IH [of "record_obs C ob fr"] show ?thesis
        by (simp add: process_record_accepted)
    qed
  qed
qed

lemma for_aircraft_success:
  "fst (observations E C clock (time_calls fr) acs) = None \<Longrightarrow>
   for_aircraft E C clock fr acs =
     (None, foldl (\<lambda>f ob. record_obs C ob f) fr (snd (observations E C clock (time_calls fr) acs)))"
proof (induction acs arbitrary: fr)
  case Nil
  show ?case by simp
next
  case (Cons ac acs)
  show ?case
  proof (cases "observe E C (clock (time_calls fr)) ac")
    case (Inl e)
    with Cons.prems show ?thesis by simp
  next
    case (Inr r)
    show ?thesis
    proof (cases r)
      case None
      with Inr Cons.prems Cons.IH [of fr] show ?thesis by (simp add: process_record_dropped)
    next
      case (Some ob)
      with Inr Cons.prems Cons.IH [of "record_obs C ob fr"] show ?thesis
        by (simp add: process_record_accepted)
    qed
  qed
qed

lemma for_aircraft_self:
  "self (snd (for_aircraft E C clock fr acs)) =
     (self fr)\<lparr> aircraft_tracks :=
        tracks_after C (aircraft_tracks (self fr)) (snd (observations E C clock (time_calls fr) acs)) \<rparr>"
proof (induction acs arbitrary: fr)
  case Nil
  show ?case by (simp add: tracks_after_def)
next
  case (Cons ac acs)
  show ?case
  proof (cases "observe E C (clock (time_calls fr)) ac")
    case (Inl e)
    have "fst (process_record E C clock fr ac) = Some e"
      using Inl by (rule process_record_raises)
    moreover have "self (snd (process_record E C clock fr ac)) = self fr"
      using Inl by (rule process_record_raises_self)
    ultimately show ?thesis
      using Inl by (simp add: case_prod_unfold tracks_after_def)
  next
    case (Inr r)
    show ?thesis
    proof (cases r)
      case None
      with Inr Cons.IH [of fr] show ?thesis by (simp add: process_record_dropped)
    next
      case (Some ob)
      with Inr Cons.IH [of "record_obs C ob fr"] show ?thesis
        by (simp add: process_record_accepted tracks_after_def record_obs_def)
    qed
  qed
qed

section \<open>The cycle in terms of its observations\<close>

lemma foldl_record_obs_fields:
  "new_distances (foldl (\<lambda>f ob. record_obs C ob f) fr obs) = new_distances fr @ map ob_dist obs"
  "new_altitudes (foldl (\<lambda>f ob. record_obs C ob f) fr obs) = new_altitudes fr @ map ob_alt obs"
  "new_groundspeeds (foldl (\<lambda>f ob. record_obs C ob f) fr obs) = new_groundspeeds fr @ map ob_gs obs"
  "current_hex_codes (foldl (\<lambda>f ob. record_obs C ob f) fr obs) = current_hex_codes fr \<union> ob_key ` set obs"
  "temp_aircraft_seen (foldl (\<lambda>f ob. record_obs C ob f) fr obs) =
     foldl (\<lambda>m ob. m(ob_key ob \<mapsto> ob_entry ob)) (temp_aircraft_seen fr) obs"
  by (induction obs arbitrary: fr; simp add: record_obs_def)+

lemma foldl_record_obs_self:
  "self (foldl (\<lambda>f ob. record_obs C ob f) fr obs) =
     (self fr)\<lparr> aircraft_tracks := tracks_after C (aircraft_tracks (self fr)) obs \<rparr>"
  by (induction obs arbitrary: fr) (simp_all add: record_obs_def tracks_after_def)

lemma records_of_iterable:
  "iterable data \<Longrightarrow> py_get data ''aircraft'' (JArr []) = Inr coll \<Longrightarrow> py_iter coll = Inr (records_of data)"
  by (simp add: iterable_def records_of_def split: sum.splits)

lemma not_iterable_records: "\<not> iterable data \<Longrightarrow> records_of data = []"
  by (simp add: iterable_def records_of_def split: sum.splits)

lemma fetch_fst:
  "fst (fetch_aircraft_data E C clock got st) =
     (case got of
        Raised e \<Rightarrow> False
      | Payload data \<Rightarrow> iterable data \<and> fst (observations E C clock 0 (records_of data)) = None)"
proof (cases got)
  case (Raised e)
  then show ?thesis by (simp add: fetch_aircraft_data_def)
next
  case (Payload data)
  show ?thesis
  proof (cases "iterable data")
    case False
    then show ?thesis
      by (simp add: Payload fetch_aircraft_data_def iterable_def split: sum.splits)
  next
    case True
    then obtain coll where c: "py_get data ''aircraft'' (JArr []) = Inr coll"
      and i: "py_iter coll = Inr (records_of data)"
      by (auto simp: iterable_def records_of_def split: sum.splits)
    have "fst (for_aircraft E C clock (enter st) (records_of data)) =
            fst (observations E C clock 0 (records_of data))"
      by (simp add: for_aircraft_fst enter_def)
    then show ?thesis
      using True by (simp add: Payload fetch_aircraft_data_def c i case_prod_unfold split: option.splits)
  qed
qed

lemma fetch_snd_success:
  assumes "fst (fetch_aircraft_data E C clock (Payload data) st)"
  shows "snd (fetch_aircraft_data E C clock (Payload data) st) =
           commit C (foldl (\<lambda>f ob. record_obs C ob f) (enter st) (accepted E C clock data))"
proof -
  from assms have it: "iterable data"
    and ok: "fst (observations E C clock 0 (records_of data)) = None"
    by (simp_all add: fetch_fst)
  from it obtain coll where c: "py_get data ''aircraft'' (JArr []) = Inr coll"
    and i: "py_iter coll = Inr (records_of data)"
    by (auto simp: iterable_def records_of_def split: sum.splits)
  have "time_calls (enter st) = 0" by (simp add: enter_def)
  with ok for_aircraft_success [of E C clock "enter st" "records_of data"]
  have "for_aircraft E C clock (enter st) (records_of data) =
          (None, foldl (\<lambda>f ob. record_obs C ob f) (enter st) (accepted E C clock data))"
    by (simp add: accepted_def)
  then show ?thesis by (simp add: fetch_aircraft_data_def c i)
qed

lemma fetch_snd_failure:
  assumes "\<not> fst (fetch_aircraft_data E C clock got st)"
  shows "snd (fetch_aircraft_data E C clock got st) =
           st\<lparr> aircraft_tracks := tracks_after C (aircraft_tracks st) (seen E C clock got) \<rparr>"
proof (cases got)
  case (Raised e)
  then show ?thesis by (simp add: fetch_aircraft_data_def seen_def tracks_after_def)
next
  case (Payload data)
  show ?thesis
  proof (cases "iterable data")
    case False
    then show ?thesis
      by (simp add: Payload fetch_aircraft_data_def seen_def accepted_def not_iterable_records
            tracks_after_def iterable_def split: sum.splits)
  next
    case True
    then obtain coll where c: "py_get data ''aircraft'' (JArr []) = Inr coll"
      and i: "py_iter coll = Inr (records_of data)"
      by (auto simp: iterable_def records_of_def split: sum.splits)
    from assms True have "fst (observations E C clock 0 (records_of data)) \<noteq> None"
      by (simp add: fetch_fst Payload)
    then have "fst (for_aircraft E C clock (enter st) (records_of data)) \<noteq> None"
      by (simp add: for_aircraft_fst enter_def)
    moreover have "self (snd (for_aircraft E C clock (enter st) (records_of data))) =
        st\<lparr> aircraft_tracks := tracks_after C (aircraft_tracks st) (accepted E C clock data) \<rparr>"
      by (simp add: for_aircraft_self enter_def accepted_def)
    ultimately show ?thesis
      by (auto simp: Payload fetch_aircraft_data_def c i seen_def case_prod_unfold split: option.splits)
  qed
qed

lemma fetch_success_fields:
  assumes "fst (fetch_aircraft_data E C clock (Payload data) st)"
  defines "st' \<equiv> snd (fetch_aircraft_data E C clock (Payload data) st)"
  defines "obs \<equiv> accepted E C clock data"
  shows "all_distances st' = all_distances st @ map ob_dist obs"
    and "all_altitudes st' = all_altitudes st @ map ob_alt obs"
    and "all_groundspeeds st' = all_groundspeeds st @ map ob_gs obs"
    and "current_aircraft st' = table_of obs"
    and "aircraft_tracks st' =
           (if KEEP_ALL_TRACKS C = 0
            then tracks_after C (aircraft_tracks st) obs |` (ob_key ` set obs)
            else tracks_after C (aircraft_tracks st) obs)"
  unfolding st'_def obs_def fetch_snd_success [OF assms(1)]
  by (simp_all add: commit_def Let_def foldl_record_obs_fields foldl_record_obs_self enter_def table_of_def)

section \<open>The series, the drop rules and the table\<close>

lemma fetch_Raised [simp]: "fetch_aircraft_data E C clock (Raised e) st = (False, st)"
  by (simp add: fetch_aircraft_data_def)

lemma fetch_series:
  defines "grown E C clock got st \<equiv>
     (if fst (fetch_aircraft_data E C clock got st) then seen E C clock got else [])"
  shows "all_distances (snd (fetch_aircraft_data E C clock got st)) =
           all_distances st @ map ob_dist (grown E C clock got st)"
    and "all_altitudes (snd (fetch_aircraft_data E C clock got st)) =
           all_altitudes st @ map ob_alt (grown E C clock got st)"
    and "all_groundspeeds (snd (fetch_aircraft_data E C clock got st)) =
           all_groundspeeds st @ map ob_gs (grown E C clock got st)"
proof -
  show "all_distances (snd (fetch_aircraft_data E C clock got st)) =
           all_distances st @ map ob_dist (grown E C clock got st)"
  proof (cases "fst (fetch_aircraft_data E C clock got st)")
    case True
    then obtain data where "got = Payload data" by (cases got) simp_all
    with True show ?thesis by (simp add: grown_def fetch_success_fields seen_def)
  next
    case False
    then show ?thesis by (simp add: grown_def fetch_snd_failure)
  qed
  show "all_altitudes (snd (fetch_aircraft_data E C clock got st)) =
           all_altitudes st @ map ob_alt (grown E C clock got st)"
  proof (cases "fst (fetch_aircraft_data E C clock got st)")
    case True
    then obtain data where "got = Payload data" by (cases got) simp_all
    with True show ?thesis by (simp add: grown_def fetch_success_fields seen_def)
  next
    case False
    then show ?thesis by (simp add: grown_def fetch_snd_failure)
  qed
  show "all_groundspeeds (snd (fetch_aircraft_data E C clock got st)) =
           all_groundspeeds st @ map ob_gs (grown E C clock got st)"
  proof (cases "fst (fetch_aircraft_data E C clock got st)")
    case True
    then obtain data where "got = Payload data" by (cases got) simp_all
    with True show ?thesis by (simp add: grown_def fetch_success_fields seen_def)
  next
    case False
    then show ?thesis by (simp add: grown_def fetch_snd_failure)
  qed
qed

lemma fetch_aligned: "aligned st \<Longrightarrow> aligned (snd (fetch_aircraft_data E C clock got st))"
  by (simp add: aligned_def fetch_series)

lemma run_aligned: "aligned st \<Longrightarrow> aligned (run E C st ticks)"
  by (induction ticks arbitrary: st) (simp_all add: fetch_aligned)

lemma aligned_init: "aligned init"
  by (simp add: aligned_def init_def)

lemma fetch_prefix:
  "prefix (all_distances st) (all_distances (snd (fetch_aircraft_data E C clock got st)))"
  "prefix (all_altitudes st) (all_altitudes (snd (fetch_aircraft_data E C clock got st)))"
  "prefix (all_groundspeeds st) (all_groundspeeds (snd (fetch_aircraft_data E C clock got st)))"
  by (simp_all add: fetch_series)

lemma run_prefix_distances: "prefix (all_distances st) (all_distances (run E C st ticks))"
proof (induction ticks arbitrary: st)
  case Nil
  show ?case by simp
next
  case (Cons tick ticks)
  have "prefix (all_distances st)
          (all_distances (snd (fetch_aircraft_data E C (fst tick) (snd tick) st)))"
    by (rule fetch_prefix)
  also have "prefix \<dots> (all_distances (run E C st (tick # ticks)))"
    using Cons.IH by simp
  finally show ?case .
qed

lemma run_prefix_altitudes: "prefix (all_altitudes st) (all_altitudes (run E C st ticks))"
proof (induction ticks arbitrary: st)
  case Nil
  show ?case by simp
next
  case (Cons tick ticks)
  have "prefix (all_altitudes st)
          (all_altitudes (snd (fetch_aircraft_data E C (fst tick) (snd tick) st)))"
    by (rule fetch_prefix)
  also have "prefix \<dots> (all_altitudes (run E C st (tick # ticks)))"
    using Cons.IH by simp
  finally show ?case .
qed

lemma run_prefix_groundspeeds: "prefix (all_groundspeeds st) (all_groundspeeds (run E C st ticks))"
proof (induction ticks arbitrary: st)
  case Nil
  show ?case by simp
next
  case (Cons tick ticks)
  have "prefix (all_groundspeeds st)
          (all_groundspeeds (snd (fetch_aircraft_data E C (fst tick) (snd tick) st)))"
    by (rule fetch_prefix)
  also have "prefix \<dots> (all_groundspeeds (run E C st (tick # ticks)))"
    using Cons.IH by simp
  finally show ?case .
qed

lemma observe_dropped: "(observe E C now ac = Inr None) = dropped E ac"
proof (cases ac)
  case (JObj kvs)
  show ?thesis
    unfolding JObj observe_def dropped_def
    by (simp split: sum.split exn.split)
qed (simp_all add: observe_def dropped_def)

lemma observations_count:
  "fst (observations E C clock n acs) = None \<Longrightarrow>
   length (snd (observations E C clock n acs)) = length (filter (\<lambda>ac. \<not> dropped E ac) acs)"
proof (induction acs arbitrary: n)
  case Nil
  show ?case by simp
next
  case (Cons ac acs)
  show ?case
  proof (cases "observe E C (clock n) ac")
    case (Inl e)
    with Cons.prems show ?thesis by simp
  next
    case (Inr r)
    show ?thesis
    proof (cases r)
      case None
      with Inr observe_dropped [of E C "clock n" ac] have "dropped E ac" by simp
      with Inr None Cons show ?thesis by simp
    next
      case (Some ob)
      with Inr observe_dropped [of E C "clock n" ac] have "\<not> dropped E ac" by simp
      with Inr Some Cons.prems Cons.IH [of "Suc n"] show ?thesis by simp
    qed
  qed
qed

lemma table_of_snoc: "table_of (obs @ [ob]) = (table_of obs)(ob_key ob \<mapsto> ob_entry ob)"
  by (simp add: table_of_def)

lemma table_of_map_of:
  "table_of obs = map_of (rev (map (\<lambda>ob. (ob_key ob, ob_entry ob)) obs))"
  by (induction obs rule: rev_induct) (simp_all add: table_of_snoc, simp add: table_of_def)

lemma dom_table_of: "dom (table_of obs) = ob_key ` set obs"
proof (induction obs rule: rev_induct)
  case Nil
  show ?case by (simp add: table_of_def)
next
  case (snoc ob obs)
  have "dom (table_of (obs @ [ob])) = insert (ob_key ob) (dom (table_of obs))"
    unfolding table_of_snoc by simp
  with snoc show ?case by simp
qed

section \<open>The track store\<close>

lemma cut_last_n:
  assumes "0 < N"
  shows "(if int (length xs) > N then py_slice_from (- N) xs else xs) = last_n (nat N) xs"
proof (cases "int (length xs) > N")
  case True
  with assms have "nat (int (length xs) + - N) = length xs - nat N" by linarith
  with True assms show ?thesis by (simp add: py_slice_from_def last_n_def)
next
  case False
  then have "length xs - nat N = 0" by linarith
  with False show ?thesis by (simp add: last_n_def)
qed

lemma update_track_apply:
  "update_track C k p m k' =
     (if k' = k
      then Some (let t = (case m k of None \<Rightarrow> [] | Some t \<Rightarrow> t) @ [p]
                 in if int (length t) > MAX_TRACK_POINTS C
                    then py_slice_from (- MAX_TRACK_POINTS C) t else t)
      else m k')"
  by (simp add: update_track_def Let_def)

lemma update_track_last_n:
  "0 < MAX_TRACK_POINTS C \<Longrightarrow>
   update_track C k p m k =
     Some (last_n (nat (MAX_TRACK_POINTS C)) ((case m k of None \<Rightarrow> [] | Some t \<Rightarrow> t) @ [p]))"
  by (simp add: update_track_apply Let_def cut_last_n)

lemma update_track_other: "k' \<noteq> k \<Longrightarrow> update_track C k p m k' = m k'"
  by (simp add: update_track_apply)

lemma dom_update_track: "dom (update_track C k p m) = insert k (dom m)"
  by (simp add: update_track_def Let_def)

lemma tracks_after_snoc:
  "tracks_after C m (obs @ [ob]) = update_track C (ob_key ob) (ob_pos ob) (tracks_after C m obs)"
  by (simp add: tracks_after_def)

lemma tracks_after_Nil [simp]: "tracks_after C m [] = m"
  by (simp add: tracks_after_def)

lemma dom_tracks_after: "dom (tracks_after C m obs) = dom m \<union> ob_key ` set obs"
  by (induction obs rule: rev_induct) (auto simp: tracks_after_snoc dom_update_track)

lemma tracks_after_other: "k \<notin> ob_key ` set obs \<Longrightarrow> tracks_after C m obs k = m k"
  by (induction obs rule: rev_induct) (auto simp: tracks_after_snoc update_track_other)

lemma last_n_length: "length (last_n n xs) \<le> n"
  by (simp add: last_n_def)

lemma last_n_snoc:
  assumes "0 < n"
  shows "last_n n (last_n n xs @ [p]) = last_n n (xs @ [p])"
proof (cases "length xs \<le> n")
  case True
  then show ?thesis by (simp add: last_n_def)
next
  case False
  with assms have a: "Suc (length xs) - (length xs - n + n) + (length xs - n) = Suc (length xs) - n"
    by linarith
  show ?thesis by (simp add: last_n_def a)
qed

lemma positions_of_snoc:
  "positions_of k (obs @ [ob]) =
     (if ob_key ob = k then positions_of k obs @ [ob_pos ob] else positions_of k obs)"
  by (simp add: positions_of_def)

lemma positions_of_unseen: "k \<notin> ob_key ` set obs \<Longrightarrow> positions_of k obs = []"
  by (auto simp: positions_of_def filter_empty_conv)

lemma tracks_after_key:
  assumes "0 < MAX_TRACK_POINTS C"
  shows "k \<in> ob_key ` set obs \<Longrightarrow>
         tracks_after C m obs k =
           Some (last_n (nat (MAX_TRACK_POINTS C))
                  ((case m k of None \<Rightarrow> [] | Some t \<Rightarrow> t) @ positions_of k obs))"
proof (induction obs rule: rev_induct)
  case Nil
  then show ?case by simp
next
  case (snoc ob obs)
  let ?N = "nat (MAX_TRACK_POINTS C)"
  let ?old = "case m k of None \<Rightarrow> [] | Some t \<Rightarrow> t"
  from assms have n: "0 < ?N" by simp
  show ?case
  proof (cases "ob_key ob = k")
    case False
    with snoc.prems have "k \<in> ob_key ` set obs" by auto
    with snoc.IH False show ?thesis
      by (simp add: tracks_after_snoc update_track_other positions_of_snoc)
  next
    case True
    show ?thesis
    proof (cases "k \<in> ob_key ` set obs")
      case seen: True
      with snoc.IH have "tracks_after C m obs k = Some (last_n ?N (?old @ positions_of k obs))"
        by simp
      with True assms n show ?thesis
        using last_n_snoc [of ?N "?old @ positions_of k obs" "ob_pos ob"]
        by (simp add: tracks_after_snoc update_track_last_n positions_of_snoc)
    next
      case False
      then have "tracks_after C m obs k = m k" and "positions_of k obs = []"
        by (simp_all add: tracks_after_other positions_of_unseen)
      with True assms show ?thesis
        by (simp add: tracks_after_snoc update_track_last_n positions_of_snoc)
    qed
  qed
qed

lemma tracks_after_bounded:
  assumes "0 < MAX_TRACK_POINTS C"
    and "\<forall>k t. m k = Some t \<longrightarrow> int (length t) \<le> MAX_TRACK_POINTS C"
    and "tracks_after C m obs k = Some t"
  shows "int (length t) \<le> MAX_TRACK_POINTS C"
proof (cases "k \<in> ob_key ` set obs")
  case True
  with assms(1,3) have "t = last_n (nat (MAX_TRACK_POINTS C))
      ((case m k of None \<Rightarrow> [] | Some t \<Rightarrow> t) @ positions_of k obs)"
    by (simp add: tracks_after_key)
  then have "length t \<le> nat (MAX_TRACK_POINTS C)" by (simp add: last_n_length)
  with assms(1) show ?thesis by linarith
next
  case False
  with assms(3) have "m k = Some t" by (simp add: tracks_after_other)
  with assms(2) show ?thesis by blast
qed

lemma fetch_tracks:
  "aircraft_tracks (snd (fetch_aircraft_data E C clock got st)) =
     (if fst (fetch_aircraft_data E C clock got st) \<and> KEEP_ALL_TRACKS C = 0
      then tracks_after C (aircraft_tracks st) (seen E C clock got) |` (ob_key ` set (seen E C clock got))
      else tracks_after C (aircraft_tracks st) (seen E C clock got))"
proof (cases "fst (fetch_aircraft_data E C clock got st)")
  case True
  then obtain data where "got = Payload data" by (cases got) simp_all
  with True show ?thesis by (simp add: fetch_success_fields seen_def)
next
  case False
  then show ?thesis by (simp add: fetch_snd_failure)
qed

lemma fetch_bounded:
  assumes "0 < MAX_TRACK_POINTS C" and "tracks_bounded C st"
  shows "tracks_bounded C (snd (fetch_aircraft_data E C clock got st))"
  unfolding tracks_bounded_def
proof (intro allI impI)
  fix k t
  assume a: "aircraft_tracks (snd (fetch_aircraft_data E C clock got st)) k = Some t"
  from assms(2) have b: "\<forall>k t. aircraft_tracks st k = Some t \<longrightarrow> int (length t) \<le> MAX_TRACK_POINTS C"
    by (simp add: tracks_bounded_def)
  from a have "tracks_after C (aircraft_tracks st) (seen E C clock got) k = Some t"
    by (simp add: fetch_tracks restrict_map_def split: if_splits)
  with assms(1) b show "int (length t) \<le> MAX_TRACK_POINTS C"
    by (rule tracks_after_bounded)
qed

lemma run_bounded:
  "0 < MAX_TRACK_POINTS C \<Longrightarrow> tracks_bounded C st \<Longrightarrow> tracks_bounded C (run E C st ticks)"
  by (induction ticks arbitrary: st) (simp_all add: fetch_bounded)

lemma bounded_init: "tracks_bounded C init"
  by (simp add: tracks_bounded_def init_def)

lemma fetch_keeps_tracks:
  "KEEP_ALL_TRACKS C \<noteq> 0 \<Longrightarrow>
   dom (aircraft_tracks st) \<subseteq> dom (aircraft_tracks (snd (fetch_aircraft_data E C clock got st)))"
  by (simp add: fetch_tracks dom_tracks_after)

lemma run_keeps_tracks:
  "KEEP_ALL_TRACKS C \<noteq> 0 \<Longrightarrow> dom (aircraft_tracks st) \<subseteq> dom (aircraft_tracks (run E C st ticks))"
proof (induction ticks arbitrary: st)
  case Nil
  show ?case by simp
next
  case (Cons tick ticks)
  have "dom (aircraft_tracks st) \<subseteq>
          dom (aircraft_tracks (snd (fetch_aircraft_data E C (fst tick) (snd tick) st)))"
    using Cons.prems by (rule fetch_keeps_tracks)
  also have "\<dots> \<subseteq> dom (aircraft_tracks (run E C st (tick # ticks)))"
    using Cons.IH [OF Cons.prems] by simp
  finally show ?case .
qed

section \<open>The last observation of a key\<close>

lemma table_of_last:
  "i < length obs \<Longrightarrow>
   (\<forall>j. i < j \<and> j < length obs \<longrightarrow> ob_key (obs ! j) \<noteq> ob_key (obs ! i)) \<Longrightarrow>
   table_of obs (ob_key (obs ! i)) = Some (ob_entry (obs ! i))"
proof (induction obs rule: rev_induct)
  case Nil
  then show ?case by simp
next
  case (snoc ob obs)
  show ?case
  proof (cases "i = length obs")
    case True
    then show ?thesis by (simp add: table_of_snoc)
  next
    case False
    with snoc.prems(1) have i: "i < length obs" by simp
    from snoc.prems(2) [rule_format, of "length obs"] i
    have "ob_key ((obs @ [ob]) ! length obs) \<noteq> ob_key ((obs @ [ob]) ! i)"
      by simp
    with i have ne: "ob_key ob \<noteq> ob_key (obs ! i)" by (simp add: nth_append)
    have "\<forall>j. i < j \<and> j < length obs \<longrightarrow> ob_key (obs ! j) \<noteq> ob_key (obs ! i)"
    proof (intro allI impI)
      fix j assume j: "i < j \<and> j < length obs"
      with snoc.prems(2) have "ob_key ((obs @ [ob]) ! j) \<noteq> ob_key ((obs @ [ob]) ! i)" by simp
      with j i show "ob_key (obs ! j) \<noteq> ob_key (obs ! i)" by (simp add: nth_append)
    qed
    with snoc.IH i have "table_of obs (ob_key (obs ! i)) = Some (ob_entry (obs ! i))" by simp
    with ne i show ?thesis by (simp add: table_of_snoc nth_append)
  qed
qed

section \<open>The track of an observed key, and the sample reports\<close>

lemma fetch_track_of_seen:
  assumes "0 < MAX_TRACK_POINTS C" and "k \<in> ob_key ` set (seen E C clock got)"
  shows "aircraft_tracks (snd (fetch_aircraft_data E C clock got st)) k =
           Some (last_n (nat (MAX_TRACK_POINTS C)) (track_of st k @ positions_of k (seen E C clock got)))"
  using assms by (simp add: fetch_tracks tracks_after_key track_of_def)

lemma observe_report:
  "observe sample_env shipped now (report h i j) =
     Inr (Some \<lparr> ob_key = KStr h, ob_pos = (JInt i, JInt j), ob_alt = 30000, ob_gs = Some 450,
                 ob_dist = \<bar>i\<bar> + \<bar>j\<bar>,
                 ob_entry = \<lparr> ac_lat = JInt i, ac_lon = JInt j, ac_alt = 30000,
                              ac_flight = ''TEST1'', ac_gs = JInt 450 \<rparr> \<rparr>)"
  by (simp add: observe_def report_def dict_get_def altitude_field_def py_float_def sample_env_def
        shipped_def number_def gs_float_of_def py_key_def py_strip_def strip_def is_space_def)

lemma seen_report:
  "seen sample_env shipped clock (Payload (snapshot [report h i j])) =
     [\<lparr> ob_key = KStr h, ob_pos = (JInt i, JInt j), ob_alt = 30000, ob_gs = Some 450,
        ob_dist = \<bar>i\<bar> + \<bar>j\<bar>,
        ob_entry = \<lparr> ac_lat = JInt i, ac_lon = JInt j, ac_alt = 30000,
                     ac_flight = ''TEST1'', ac_gs = JInt 450 \<rparr> \<rparr>]"
  by (simp add: seen_def accepted_def records_of_def snapshot_def py_get_def dict_get_def
        py_iter_def observe_report)

lemma report_track:
  "aircraft_tracks (snd (fetch_aircraft_data sample_env shipped clock
       (Payload (snapshot [report h i j])) st)) (KStr h) =
     Some (last_n 10 (track_of st (KStr h) @ [(JInt i, JInt j)]))"
proof -
  have "0 < MAX_TRACK_POINTS shipped" by (simp add: shipped_def)
  moreover have "KStr h \<in> ob_key ` set (seen sample_env shipped clock (Payload (snapshot [report h i j])))"
    by (simp add: seen_report)
  ultimately have "aircraft_tracks (snd (fetch_aircraft_data sample_env shipped clock
       (Payload (snapshot [report h i j])) st)) (KStr h) =
     Some (last_n (nat (MAX_TRACK_POINTS shipped)) (track_of st (KStr h) @
        positions_of (KStr h) (seen sample_env shipped clock (Payload (snapshot [report h i j])))))"
    by (rule fetch_track_of_seen)
  moreover have "nat (MAX_TRACK_POINTS shipped) = 10" by (simp add: shipped_def)
  ultimately show ?thesis by (simp add: seen_report positions_of_def)
qed

lemma report_track_of:
  "track_of (snd (fetch_aircraft_data sample_env shipped clock
       (Payload (snapshot [report h i j])) st)) (KStr h) =
     last_n 10 (track_of st (KStr h) @ [(JInt i, JInt j)])"
  by (simp add: track_of_def [of "snd _"] report_track)

lemma track_of_init: "track_of init k = []"
  by (simp add: track_of_def init_def)

lemma xyz_scenario:
  "aircraft_tracks (run sample_env shipped init xyz_ticks) (KStr ''XYZ'') =
     Some (map (\<lambda>i. (JInt i, JInt (- i))) [2, 3, 4, 5, 6, 7, 8, 9, 10, 11])"
  by (simp add: xyz_ticks_def report_track report_track_of track_of_init last_n_def)

section \<open>Pruning and counting\<close>

lemma fetch_pruned_dom:
  "KEEP_ALL_TRACKS C = 0 \<Longrightarrow> fst (fetch_aircraft_data E C clock got st) \<Longrightarrow>
   dom (aircraft_tracks (snd (fetch_aircraft_data E C clock got st))) = ob_key ` set (seen E C clock got)"
  by (auto simp: fetch_tracks dom_tracks_after)

lemma success_count:
  assumes "fst (fetch_aircraft_data E C clock (Payload data) st)"
  shows "length (accepted E C clock data) = length (filter (\<lambda>ac. \<not> dropped E ac) (records_of data))"
proof -
  from assms have "fst (observations E C clock 0 (records_of data)) = None"
    by (simp add: fetch_fst)
  then show ?thesis unfolding accepted_def by (rule observations_count)
qed

lemma table_card:
  "card (dom (table_of obs)) \<le> length obs"
  "\<not> distinct (map ob_key obs) \<Longrightarrow> card (dom (table_of obs)) < length obs"
proof -
  have eq: "dom (table_of obs) = set (map ob_key obs)" by (simp add: dom_table_of)
  show "card (dom (table_of obs)) \<le> length obs"
    unfolding eq using card_length [of "map ob_key obs"] by simp
  assume "\<not> distinct (map ob_key obs)"
  then have "card (set (map ob_key obs)) \<noteq> length (map ob_key obs)"
    using card_distinct by blast
  with card_length [of "map ob_key obs"] show "card (dom (table_of obs)) < length obs"
    unfolding eq by simp
qed

section \<open>Unknown groundspeed and the plots\<close>

lemma gs_float_of_unknown:
  "gs_float_of E v = Inr g \<Longrightarrow> v = JNull \<or> v = JStr ''N/A'' \<or> (\<exists>e. py_float E v = Inl e) \<Longrightarrow> g = None"
  by (auto simp: gs_float_of_def split: if_splits sum.splits exn.splits)

lemma observe_gs:
  assumes "observe E C now (JObj kvs) = Inr (Some ob)"
  shows "gs_float_of E (dict_get kvs ''gs'' JNull) = Inr (ob_gs ob)"
  using assms unfolding observe_def
  by (auto split: if_splits sum.splits exn.splits)

lemma known_values:
  "map Some (concat (map (\<lambda>gs. case gs of None \<Rightarrow> [] | Some g \<Rightarrow> [g]) xs)) =
     filter (\<lambda>g. g \<noteq> None) xs"
  by (induction xs) (auto split: option.splits)

lemma known_pairs:
  "map (\<lambda>p. (Some (fst p), snd p))
     (concat (map (\<lambda>(gs, alt). case gs of None \<Rightarrow> [] | Some g \<Rightarrow> [(g, alt)]) ps)) =
     filter (\<lambda>p. fst p \<noteq> None) ps"
  by (induction ps) (auto split: option.splits)

lemma valid_gs_known: "map Some (valid_gs st) = filter (\<lambda>g. g \<noteq> None) (all_groundspeeds st)"
  unfolding valid_gs_def by (rule known_values)

lemma valid_data_known:
  "map (\<lambda>p. (Some (fst p), snd p)) (valid_data st) =
     filter (\<lambda>p. fst p \<noteq> None) (zip (all_groundspeeds st) (all_altitudes st))"
  unfolding valid_data_def by (rule known_pairs)

section \<open>Records without a key\<close>

lemma observe_anonymous_key:
  assumes "anonymous ac" and "observe E C now ac = Inr (Some ob)"
  shows "ob_key ob = KStr now"
proof -
  from assms(1) obtain kvs where ac: "ac = JObj kvs" and hex: "map_of kvs ''hex'' = None"
    by (auto simp: anonymous_def split: json.splits)
  from hex have "py_key E (dict_get kvs ''hex'' (JStr now)) = Inr (KStr now)"
    by (simp add: dict_get_def py_key_def)
  with assms(2) show ?thesis
    unfolding ac observe_def by (auto split: if_splits sum.splits exn.splits)
qed

lemma upt_length_Cons: "[n ..< n + length (x # xs)] = n # [Suc n ..< Suc n + length xs]"
proof -
  have e: "n + length (x # xs) = Suc n + length xs" by simp
  have "[n ..< Suc n + length xs] = n # [Suc n ..< Suc n + length xs]"
    by (rule upt_conv_Cons) simp
  then show ?thesis by (simp only: e)
qed

lemma anonymous_keys:
  "\<forall>ac \<in> set acs. anonymous ac \<Longrightarrow>
   map ob_key (snd (observations E C clock n acs)) =
     map (\<lambda>i. KStr (clock i)) [n ..< n + length (snd (observations E C clock n acs))]"
proof (induction acs arbitrary: n)
  case Nil
  show ?case by simp
next
  case (Cons ac acs)
  show ?case
  proof (cases "observe E C (clock n) ac")
    case (Inl e)
    then show ?thesis by simp
  next
    case (Inr r)
    show ?thesis
    proof (cases r)
      case None
      with Inr Cons show ?thesis by simp
    next
      case (Some ob)
      from Cons.prems have "anonymous ac" by simp
      with Inr Some have k: "ob_key ob = KStr (clock n)"
        by (simp add: observe_anonymous_key)
      from Cons.prems have "\<forall>ac \<in> set acs. anonymous ac" by simp
      from Cons.IH [OF this, of "Suc n"]
      have ih: "map ob_key (snd (observations E C clock (Suc n) acs)) =
                  map (\<lambda>i. KStr (clock i))
                    [Suc n ..< Suc n + length (snd (observations E C clock (Suc n) acs))]" .
      have s: "snd (observations E C clock n (ac # acs)) =
                 ob # snd (observations E C clock (Suc n) acs)"
        using Inr Some by simp
      show ?thesis
        unfolding s by (simp only: list.map upt_length_Cons ih k)
    qed
  qed
qed

section \<open>Records that the loop body handles, and failed cycles\<close>

lemma scalar_float:
  "scalar E v \<Longrightarrow> v \<noteq> JNull \<Longrightarrow> py_float E v = Inl e \<Longrightarrow> e = ValueError"
  by (auto simp: scalar_def py_float_def split: json.splits option.splits)

lemma scalar_gs: "scalar E v \<Longrightarrow> \<exists>g. gs_float_of E v = Inr g"
proof (cases "py_float E v")
  case (Inl e)
  assume "scalar E v"
  with Inl have "v = JNull \<or> e = ValueError" using scalar_float by blast
  with Inl show ?thesis by (auto simp: gs_float_of_def)
next
  case (Inr f)
  then show ?thesis by (simp add: gs_float_of_def)
qed

lemma hashable_key: "hashable (dict_get kvs k JNull) \<Longrightarrow> \<exists>h. py_key E (dict_get kvs k (JStr now)) = Inr h"
  by (auto simp: hashable_def py_key_def dict_get_def split: json.splits option.splits)

lemma text_strip: "is_text v \<Longrightarrow> \<exists>s. py_strip v = Inr s"
  by (auto simp: is_text_def py_strip_def split: json.splits)

lemma plain_observe:
  assumes "plain E C ac"
  shows "\<exists>r. observe E C now ac = Inr r"
proof -
  from assms obtain kvs where ac: "ac = JObj kvs"
    by (auto simp: plain_def split: json.splits)
  from assms have alt: "scalar E (altitude_field kvs)"
    and gs: "scalar E (dict_get kvs ''gs'' JNull)"
    and hex: "hashable (dict_get kvs ''hex'' JNull)"
    and flight: "is_text (dict_get kvs ''flight'' (JStr ''N/A''))"
    and loc: "dict_get kvs ''lat'' JNull = JNull \<or> dict_get kvs ''lon'' JNull = JNull
               \<or> locatable E C (dict_get kvs ''lat'' JNull, dict_get kvs ''lon'' JNull)"
    by (simp_all add: plain_def ac)
  from scalar_gs [OF gs] obtain g where g: "gs_float_of E (dict_get kvs ''gs'' JNull) = Inr g" ..
  from hashable_key [OF hex] obtain h where h: "py_key E (dict_get kvs ''hex'' (JStr now)) = Inr h" ..
  from text_strip [OF flight] obtain s where s: "py_strip (dict_get kvs ''flight'' (JStr ''N/A'')) = Inr s" ..
  show ?thesis
  proof (cases "dict_get kvs ''lat'' JNull = JNull \<or> dict_get kvs ''lon'' JNull = JNull
                 \<or> altitude_field kvs = JNull")
    case True
    then show ?thesis by (simp add: ac observe_def)
  next
    case False
    with loc obtain d where d: "haversine E (RECEIVER_LAT C, RECEIVER_LON C)
        (dict_get kvs ''lat'' JNull, dict_get kvs ''lon'' JNull) = Inr d"
      by (auto simp: locatable_def split: sum.splits)
    show ?thesis
    proof (cases "py_float E (altitude_field kvs)")
      case (Inl e)
      with alt False have "e = ValueError" using scalar_float by blast
      with Inl False show ?thesis by (simp add: ac observe_def)
    next
      case (Inr f)
      with False d g h s show ?thesis by (simp add: ac observe_def)
    qed
  qed
qed

lemma plain_observations:
  "\<forall>ac \<in> set acs. plain E C ac \<Longrightarrow> fst (observations E C clock n acs) = None"
proof (induction acs arbitrary: n)
  case Nil
  show ?case by simp
next
  case (Cons ac acs)
  from Cons.prems have "plain E C ac" by simp
  then obtain r where r: "observe E C (clock n) ac = Inr r"
    using plain_observe by blast
  from Cons.prems have rest: "\<forall>ac \<in> set acs. plain E C ac" by simp
  show ?case
  proof (cases r)
    case None
    with r Cons.IH [OF rest, of n] show ?thesis by simp
  next
    case (Some ob)
    with r Cons.IH [OF rest, of "Suc n"] show ?thesis by simp
  qed
qed

lemma failed_cycle_keeps_series_and_table:
  assumes "\<not> fst (fetch_aircraft_data E C clock got st)"
  shows "all_distances (snd (fetch_aircraft_data E C clock got st)) = all_distances st"
    and "all_altitudes (snd (fetch_aircraft_data E C clock got st)) = all_altitudes st"
    and "all_groundspeeds (snd (fetch_aircraft_data E C clock got st)) = all_groundspeeds st"
    and "current_aircraft (snd (fetch_aircraft_data E C clock got st)) = current_aircraft st"
    and "seen E C clock got = [] \<Longrightarrow> snd (fetch_aircraft_data E C clock got st) = st"
  using assms by (simp_all add: fetch_snd_failure)

lemma update_track_zero_cap:
  "MAX_TRACK_POINTS C = 0 \<Longrightarrow>
   update_track C k p m k = Some ((case m k of None \<Rightarrow> [] | Some t \<Rightarrow> t) @ [p])"
  by (simp add: update_track_apply py_slice_from_def Let_def)

text \<open>
  When the payload is a dict whose \<open>'aircraft'\<close> entry can be iterated and
  every record is a dict whose altitude and groundspeed are absent, a number that
  \<open>float\<close> converts, or text,
  whose key is absent or can be hashed, whose label is absent or text and whose position,
  when it has one, is accepted by the distance routine, the cycle runs to its end and
  returns \<open>True\<close>; the records without latitude, longitude or altitude and those whose
  altitude is text that does not convert are dropped, every other record is observed,
  and an observed record whose groundspeed is absent, \<open>'N/A'\<close> or text that does not
  convert carries \<open>None\<close>.
\<close>

lemma plain_records_never_abort:
  assumes "iterable data" and "\<forall>ac \<in> set (records_of data). plain E C ac"
  shows "fst (fetch_aircraft_data E C clock (Payload data) st)
         \<and> length (accepted E C clock data) =
             length (filter (\<lambda>ac. \<not> dropped E ac) (records_of data))
         \<and> length (all_distances (snd (fetch_aircraft_data E C clock (Payload data) st))) =
             length (all_distances st) + length (filter (\<lambda>ac. \<not> dropped E ac) (records_of data))
         \<and> (\<forall>kvs now ob.
               JObj kvs \<in> set (records_of data) \<and> observe E C now (JObj kvs) = Inr (Some ob)
               \<and> (dict_get kvs ''gs'' JNull = JNull \<or> dict_get kvs ''gs'' JNull = JStr ''N/A''
                    \<or> (\<exists>s. dict_get kvs ''gs'' JNull = JStr s \<and> float_of_str E s = None))
               \<longrightarrow> ob_gs ob = None)"
proof -
  have ok: "fst (fetch_aircraft_data E C clock (Payload data) st)"
    using assms by (simp add: fetch_fst plain_observations)
  have gs: "\<forall>kvs now ob.
               JObj kvs \<in> set (records_of data) \<and> observe E C now (JObj kvs) = Inr (Some ob)
               \<and> (dict_get kvs ''gs'' JNull = JNull \<or> dict_get kvs ''gs'' JNull = JStr ''N/A''
                    \<or> (\<exists>s. dict_get kvs ''gs'' JNull = JStr s \<and> float_of_str E s = None))
               \<longrightarrow> ob_gs ob = None"
  proof (intro allI impI)
    fix kvs now ob
    assume h: "JObj kvs \<in> set (records_of data) \<and> observe E C now (JObj kvs) = Inr (Some ob)
               \<and> (dict_get kvs ''gs'' JNull = JNull \<or> dict_get kvs ''gs'' JNull = JStr ''N/A''
                    \<or> (\<exists>s. dict_get kvs ''gs'' JNull = JStr s \<and> float_of_str E s = None))"
    then have "observe E C now (JObj kvs) = Inr (Some ob)" by simp
    then have g: "gs_float_of E (dict_get kvs ''gs'' JNull) = Inr (ob_gs ob)"
      by (rule observe_gs)
    from h have "dict_get kvs ''gs'' JNull = JNull \<or> dict_get kvs ''gs'' JNull = JStr ''N/A''
        \<or> (\<exists>e. py_float E (dict_get kvs ''gs'' JNull) = Inl e)"
      by (auto simp: py_float_def)
    with g show "ob_gs ob = None" by (rule gs_float_of_unknown)
  qed
  have n: "length (accepted E C clock data) =
             length (filter (\<lambda>ac. \<not> dropped E ac) (records_of data))"
    using ok by (rule success_count)
  have "length (all_distances (snd (fetch_aircraft_data E C clock (Payload data) st))) =
             length (all_distances st) + length (accepted E C clock data)"
    by (simp add: fetch_success_fields [OF ok])
  with n have "length (all_distances (snd (fetch_aircraft_data E C clock (Payload data) st))) =
             length (all_distances st) + length (filter (\<lambda>ac. \<not> dropped E ac) (records_of data))"
    by simp
  with ok n gs show ?thesis by blast
qed

lemma plain_records_sample:
  "iterable mixed
   \<and> list_all (plain sample_env shipped) (records_of mixed)
   \<and> fst (fetch_aircraft_data sample_env shipped stalled_clock (Payload mixed) init)
   \<and> length (accepted sample_env shipped stalled_clock mixed) =
       length (filter (\<lambda>ac. \<not> dropped sample_env ac) (records_of mixed))
   \<and> length (records_of mixed) = 3
   \<and> length (filter (\<lambda>ac. \<not> dropped sample_env ac) (records_of mixed)) = 2"
proof -
  have it: "iterable mixed"
    by code_simp
  have all: "list_all (plain sample_env shipped) (records_of mixed)"
    by code_simp
  then have pl: "\<forall>ac \<in> set (records_of mixed). plain sample_env shipped ac"
    by (simp add: list_all_iff)
  have three: "length (records_of mixed) = 3"
    by code_simp
  have two: "length (filter (\<lambda>ac. \<not> dropped sample_env ac) (records_of mixed)) = 2"
    by code_simp
  note T = plain_records_never_abort [OF it pl, of stalled_clock init]
  from T have "length (accepted sample_env shipped stalled_clock mixed) =
       length (filter (\<lambda>ac. \<not> dropped sample_env ac) (records_of mixed))"
    by blast
  moreover from T have "fst (fetch_aircraft_data sample_env shipped stalled_clock (Payload mixed) init)"
    by blast
  ultimately show ?thesis using it all three two by blast
qed

text \<open>
  When a record is accepted and its groundspeed field is absent, is \<open>null\<close>, is
  \<open>'N/A'\<close> or does not convert, the observation carries \<open>None\<close>, and that is the entry
  which a successful cycle appends to the groundspeed series. The histogram is drawn from
  exactly the entries that are not \<open>None\<close>, and the scatter plot from exactly the pairs
  whose groundspeed is not \<open>None\<close>, in order and unchanged.
\<close>

lemma unknown_groundspeed_marked_and_skipped:
  "(observe E C now (JObj kvs) = Inr (Some ob)
      \<and> (map_of kvs ''gs'' = None \<or> map_of kvs ''gs'' = Some (JStr ''N/A'')
          \<or> (\<exists>v e. map_of kvs ''gs'' = Some v \<and> py_float E v = Inl e))
      \<longrightarrow> ob_gs ob = None)
   \<and> (fst (fetch_aircraft_data E C clock got st) \<longrightarrow>
        all_groundspeeds (snd (fetch_aircraft_data E C clock got st)) =
          all_groundspeeds st @ map ob_gs (seen E C clock got))
   \<and> map Some (valid_gs st) = filter (\<lambda>g. g \<noteq> None) (all_groundspeeds st)
   \<and> map (\<lambda>p. (Some (fst p), snd p)) (valid_data st) =
        filter (\<lambda>p. fst p \<noteq> None) (zip (all_groundspeeds st) (all_altitudes st))
   \<and> (\<forall>xs. update_hist_gs_plot st = Some xs \<longrightarrow> xs = valid_gs st)
   \<and> (\<forall>xs ys. update_scatter_gs_plot st = Some (xs, ys) \<longrightarrow>
          xs = map fst (valid_data st) \<and> ys = map snd (valid_data st))"
proof -
  have a: "observe E C now (JObj kvs) = Inr (Some ob)
      \<and> (map_of kvs ''gs'' = None \<or> map_of kvs ''gs'' = Some (JStr ''N/A'')
          \<or> (\<exists>v e. map_of kvs ''gs'' = Some v \<and> py_float E v = Inl e))
      \<longrightarrow> ob_gs ob = None"
  proof
    assume h: "observe E C now (JObj kvs) = Inr (Some ob)
      \<and> (map_of kvs ''gs'' = None \<or> map_of kvs ''gs'' = Some (JStr ''N/A'')
          \<or> (\<exists>v e. map_of kvs ''gs'' = Some v \<and> py_float E v = Inl e))"
    then have "observe E C now (JObj kvs) = Inr (Some ob)" by simp
    then have g: "gs_float_of E (dict_get kvs ''gs'' JNull) = Inr (ob_gs ob)"
      by (rule observe_gs)
    from h have "dict_get kvs ''gs'' JNull = JNull \<or> dict_get kvs ''gs'' JNull = JStr ''N/A''
        \<or> (\<exists>e. py_float E (dict_get kvs ''gs'' JNull) = Inl e)"
      by (auto simp: dict_get_def)
    with g show "ob_gs ob = None" by (rule gs_float_of_unknown)
  qed
  have b: "fst (fetch_aircraft_data E C clock got st) \<longrightarrow>
        all_groundspeeds (snd (fetch_aircraft_data E C clock got st)) =
          all_groundspeeds st @ map ob_gs (seen E C clock got)"
    by (simp add: fetch_series)
  have c: "\<forall>xs. update_hist_gs_plot st = Some xs \<longrightarrow> xs = valid_gs st"
    by (simp add: update_hist_gs_plot_def)
  have d: "\<forall>xs ys. update_scatter_gs_plot st = Some (xs, ys) \<longrightarrow>
          xs = map fst (valid_data st) \<and> ys = map snd (valid_data st)"
    by (simp add: update_scatter_gs_plot_def)
  from a b c d valid_gs_known [of st] valid_data_known [of st] show ?thesis by blast
qed


lemma unknown_groundspeed_sample:
  "observe sample_env shipped ''0'' (JObj [(''hex'', JStr ''a1b2c3''), (''lat'', JInt 1),
       (''lon'', JInt 2), (''alt_baro'', JStr ''ground'')]) = Inr (Some silent)
   \<and> map_of [(''hex'', JStr ''a1b2c3''), (''lat'', JInt 1), (''lon'', JInt 2),
              (''alt_baro'', JStr (''ground'' :: string)) :: string \<times> int json] ''gs'' = None
   \<and> ob_gs silent = None
   \<and> fst (fetch_aircraft_data sample_env shipped stalled_clock (Payload speedless) init)
   \<and> all_groundspeeds (snd (fetch_aircraft_data sample_env shipped stalled_clock (Payload speedless) init)) =
       all_groundspeeds (init :: (int, int) tracker) @ map ob_gs (seen sample_env shipped stalled_clock (Payload speedless))
   \<and> map ob_gs (seen sample_env shipped stalled_clock (Payload speedless)) = [None, None, Some 450]
   \<and> update_hist_gs_plot
        (snd (fetch_aircraft_data sample_env shipped stalled_clock (Payload speedless) init)) = Some [450]
   \<and> [450] = valid_gs (snd (fetch_aircraft_data sample_env shipped stalled_clock (Payload speedless) init))"
proof -
  have hist: "update_hist_gs_plot
        (snd (fetch_aircraft_data sample_env shipped stalled_clock (Payload speedless) init)) = Some [450]"
    by code_simp
  note U = unknown_groundspeed_marked_and_skipped [where E = sample_env and C = shipped
      and clock = stalled_clock and got = "Payload speedless"
      and st = "snd (fetch_aircraft_data sample_env shipped stalled_clock (Payload speedless) init)"
      and now = "''0''" and ob = silent
      and kvs = "[(''hex'', JStr ''a1b2c3''), (''lat'', JInt 1), (''lon'', JInt 2),
                  (''alt_baro'', JStr ''ground'')]"]
  from U hist have drawn:
    "[450] = valid_gs (snd (fetch_aircraft_data sample_env shipped stalled_clock (Payload speedless) init))"
    by blast
  have obs: "observe sample_env shipped ''0'' (JObj [(''hex'', JStr ''a1b2c3''), (''lat'', JInt 1),
       (''lon'', JInt 2), (''alt_baro'', JStr ''ground'')]) = Inr (Some silent)"
    by code_simp
  have absent: "map_of [(''hex'', JStr ''a1b2c3''), (''lat'', JInt 1), (''lon'', JInt 2),
              (''alt_baro'', JStr (''ground'' :: string)) :: string \<times> int json] ''gs'' = None"
    by simp
  have ok: "fst (fetch_aircraft_data sample_env shipped stalled_clock (Payload speedless) init)"
    by code_simp
  have gs: "map ob_gs (seen sample_env shipped stalled_clock (Payload speedless)) = [None, None, Some 450]"
    by code_simp
  note T = unknown_groundspeed_marked_and_skipped [where E = sample_env and C = shipped
      and clock = stalled_clock and got = "Payload speedless" and st = "init :: (int, int) tracker"
      and now = "''0''" and ob = silent
      and kvs = "[(''hex'', JStr ''a1b2c3''), (''lat'', JInt 1), (''lon'', JInt 2),
                  (''alt_baro'', JStr ''ground'')]"]
  from T obs absent have unknown: "ob_gs silent = None"
    by blast
  from T ok have series: "all_groundspeeds
      (snd (fetch_aircraft_data sample_env shipped stalled_clock (Payload speedless) init)) =
       all_groundspeeds (init :: (int, int) tracker) @ map ob_gs (seen sample_env shipped stalled_clock (Payload speedless))"
    by blast
  from obs absent unknown ok series gs hist drawn show ?thesis by blast
qed

section \<open>The record behind each observation\<close>

lemma sources_length:
  "length (sources E C clock n acs) = length (snd (observations E C clock n acs))"
proof (induction acs arbitrary: n)
  case Nil
  show ?case by simp
next
  case (Cons ac acs)
  show ?case
  proof (cases "observe E C (clock n) ac")
    case (Inl e)
    then show ?thesis by simp
  next
    case (Inr r)
    with Cons show ?thesis by (cases r) simp_all
  qed
qed

lemma sources_nth:
  "i < length (sources E C clock n acs) \<Longrightarrow>
   observe E C (clock (n + i)) (sources E C clock n acs ! i) =
     Inr (Some (snd (observations E C clock n acs) ! i))"
proof (induction acs arbitrary: n i)
  case Nil
  then show ?case by simp
next
  case (Cons ac acs)
  show ?case
  proof (cases "observe E C (clock n) ac")
    case (Inl e)
    with Cons.prems show ?thesis by simp
  next
    case (Inr r)
    show ?thesis
    proof (cases r)
      case None
      with Inr Cons.prems Cons.IH [of i n] show ?thesis by simp
    next
      case (Some ob)
      show ?thesis
      proof (cases i)
        case 0
        with Inr Some show ?thesis by simp
      next
        case (Suc i')
        with Inr Some Cons.prems have "i' < length (sources E C clock (Suc n) acs)" by simp
        from Cons.IH [OF this] Inr Some Suc show ?thesis by simp
      qed
    qed
  qed
qed

lemma sources_success:
  "fst (observations E C clock n acs) = None \<Longrightarrow>
   sources E C clock n acs = filter (\<lambda>ac. \<not> dropped E ac) acs"
proof (induction acs arbitrary: n)
  case Nil
  show ?case by simp
next
  case (Cons ac acs)
  show ?case
  proof (cases "observe E C (clock n) ac")
    case (Inl e)
    with Cons.prems show ?thesis by simp
  next
    case (Inr r)
    show ?thesis
    proof (cases r)
      case None
      with Inr observe_dropped [of E C "clock n" ac] have "dropped E ac" by simp
      with Inr None Cons show ?thesis by simp
    next
      case (Some ob)
      with Inr observe_dropped [of E C "clock n" ac] have "\<not> dropped E ac" by simp
      with Inr Some Cons.prems Cons.IH [of "Suc n"] show ?thesis by simp
    qed
  qed
qed

lemma accepted_record_observed:
  assumes "i < length (accepted E C clock data)"
  shows "observe E C (clock i) (accepted_records E C clock data ! i) =
           Inr (Some (accepted E C clock data ! i))"
proof -
  from assms have "i < length (sources E C clock 0 (records_of data))"
    by (simp add: accepted_def sources_length)
  from sources_nth [OF this] show ?thesis
    by (simp add: accepted_def accepted_records_def)
qed

lemma accepted_anonymous_key:
  assumes "i < length (accepted E C clock data)"
    and "anonymous (accepted_records E C clock data ! i)"
  shows "ob_key (accepted E C clock data ! i) = KStr (clock i)"
  using assms(2) accepted_record_observed [OF assms(1)] by (rule observe_anonymous_key)

section \<open>The claims\<close>

text \<open>
  C1 fails on the code. The series and the table are staged in local variables and
  written after the loop, but \<open>aircraft_tracks\<close> is written inside the loop: when a later
  record raises, the cycle returns \<open>False\<close> and the tracks of the records before it stay
  changed. Here the second record has \<open>"flight": null\<close>, so \<open>.strip()\<close> raises
  \<open>AttributeError\<close> after the first record has been stored.
\<close>

theorem failed_cycle_keeps_partial_tracks:
  "\<not> fst (fetch_aircraft_data sample_env shipped stalled_clock (Payload half_bad) init)
   \<and> fst (observations sample_env shipped stalled_clock 0 (records_of half_bad)) = Some AttributeError
   \<and> aircraft_tracks (init :: (int, int) tracker) (KStr ''a1b2c3'') = None
   \<and> aircraft_tracks (snd (fetch_aircraft_data sample_env shipped stalled_clock (Payload half_bad) init))
        (KStr ''a1b2c3'') = Some [(JInt 1, JInt 2)]
   \<and> all_distances (snd (fetch_aircraft_data sample_env shipped stalled_clock (Payload half_bad) init)) = []
   \<and> current_aircraft (snd (fetch_aircraft_data sample_env shipped stalled_clock (Payload half_bad) init))
        (KStr ''a1b2c3'') = None"
  by code_simp

text \<open>
  C2 fails on the code. The loop body converts altitude and groundspeed inside
  \<open>try\<close> blocks that catch \<open>ValueError\<close> only. A record whose altitude is a list, or
  whose groundspeed is a dict, is neither dropped nor marked unknown: \<open>float\<close> raises
  \<open>TypeError\<close>, the outer handler catches it, the cycle returns \<open>False\<close>, and the good
  report that follows in the payload is never processed.
\<close>

theorem unhandled_value_aborts_cycle:
  "\<not> fst (fetch_aircraft_data sample_env shipped stalled_clock (Payload odd_altitude) init)
   \<and> fst (observations sample_env shipped stalled_clock 0 (records_of odd_altitude)) = Some TypeError
   \<and> aircraft_tracks (snd (fetch_aircraft_data sample_env shipped stalled_clock (Payload odd_altitude) init))
        (KStr ''d4e5f6'') = None
   \<and> all_distances (snd (fetch_aircraft_data sample_env shipped stalled_clock (Payload odd_altitude) init)) = []
   \<and> \<not> fst (fetch_aircraft_data sample_env shipped stalled_clock (Payload odd_speed) init)
   \<and> fst (observations sample_env shipped stalled_clock 0 (records_of odd_speed)) = Some TypeError
   \<and> aircraft_tracks (snd (fetch_aircraft_data sample_env shipped stalled_clock (Payload odd_speed) init))
        (KStr ''d4e5f6'') = None
   \<and> all_distances (snd (fetch_aircraft_data sample_env shipped stalled_clock (Payload odd_speed) init)) = []"
  by code_simp

text \<open>
  C3. After any number of cycles from the initial state the three cumulative series have
  the same length; every cycle leaves the old entries in place as a prefix; a cycle that
  succeeds appends to the three series, at the same indices, the distance, the altitude
  and the groundspeed (or the unknown marker) of each accepted observation and nothing
  else, and a cycle that fails appends nothing.
\<close>

theorem series_aligned_append_only:
  "aligned (run E C init ticks)
   \<and> prefix (all_distances st) (all_distances (run E C st ticks))
   \<and> prefix (all_altitudes st) (all_altitudes (run E C st ticks))
   \<and> prefix (all_groundspeeds st) (all_groundspeeds (run E C st ticks))
   \<and> (fst (fetch_aircraft_data E C clock got st) \<longrightarrow>
        all_distances (snd (fetch_aircraft_data E C clock got st)) =
          all_distances st @ map ob_dist (seen E C clock got)
        \<and> all_altitudes (snd (fetch_aircraft_data E C clock got st)) =
          all_altitudes st @ map ob_alt (seen E C clock got)
        \<and> all_groundspeeds (snd (fetch_aircraft_data E C clock got st)) =
          all_groundspeeds st @ map ob_gs (seen E C clock got))
   \<and> (\<not> fst (fetch_aircraft_data E C clock got st) \<longrightarrow>
        all_distances (snd (fetch_aircraft_data E C clock got st)) = all_distances st
        \<and> all_altitudes (snd (fetch_aircraft_data E C clock got st)) = all_altitudes st
        \<and> all_groundspeeds (snd (fetch_aircraft_data E C clock got st)) = all_groundspeeds st)"
proof -
  have "aligned (run E C init ticks)"
    by (rule run_aligned) (rule aligned_init)
  moreover note run_prefix_distances [of st E C ticks] run_prefix_altitudes [of st E C ticks]
    run_prefix_groundspeeds [of st E C ticks]
  moreover have "fst (fetch_aircraft_data E C clock got st) \<longrightarrow>
        all_distances (snd (fetch_aircraft_data E C clock got st)) =
          all_distances st @ map ob_dist (seen E C clock got)
        \<and> all_altitudes (snd (fetch_aircraft_data E C clock got st)) =
          all_altitudes st @ map ob_alt (seen E C clock got)
        \<and> all_groundspeeds (snd (fetch_aircraft_data E C clock got st)) =
          all_groundspeeds st @ map ob_gs (seen E C clock got)"
    by (simp add: fetch_series)
  moreover have "\<not> fst (fetch_aircraft_data E C clock got st) \<longrightarrow>
        all_distances (snd (fetch_aircraft_data E C clock got st)) = all_distances st
        \<and> all_altitudes (snd (fetch_aircraft_data E C clock got st)) = all_altitudes st
        \<and> all_groundspeeds (snd (fetch_aircraft_data E C clock got st)) = all_groundspeeds st"
    by (simp add: fetch_series)
  ultimately show ?thesis by blast
qed

theorem series_aligned_append_only_witness:
  "fst (fetch_aircraft_data sample_env shipped stalled_clock (Payload mixed) init)
   \<and> all_distances (snd (fetch_aircraft_data sample_env shipped stalled_clock (Payload mixed) init)) =
       all_distances (init :: (int, int) tracker) @ map ob_dist (seen sample_env shipped stalled_clock (Payload mixed))
   \<and> all_altitudes (snd (fetch_aircraft_data sample_env shipped stalled_clock (Payload mixed) init)) =
       all_altitudes (init :: (int, int) tracker) @ map ob_alt (seen sample_env shipped stalled_clock (Payload mixed))
   \<and> all_groundspeeds (snd (fetch_aircraft_data sample_env shipped stalled_clock (Payload mixed) init)) =
       all_groundspeeds (init :: (int, int) tracker) @ map ob_gs (seen sample_env shipped stalled_clock (Payload mixed))
   \<and> map ob_dist (seen sample_env shipped stalled_clock (Payload mixed)) = [3, 7]
   \<and> \<not> fst (fetch_aircraft_data sample_env shipped stalled_clock (Raised RequestException) init)
   \<and> all_distances (snd (fetch_aircraft_data sample_env shipped stalled_clock
         (Raised RequestException) init)) = all_distances (init :: (int, int) tracker)"
proof -
  have ok: "fst (fetch_aircraft_data sample_env shipped stalled_clock (Payload mixed) init)"
    by code_simp
  have two: "map ob_dist (seen sample_env shipped stalled_clock (Payload mixed)) = [3, 7]"
    by code_simp
  have bad: "\<not> fst (fetch_aircraft_data sample_env shipped stalled_clock (Raised RequestException) init)"
    by simp
  from ok two bad
    series_aligned_append_only [of sample_env shipped "[]" init stalled_clock "Payload mixed"]
    series_aligned_append_only [of sample_env shipped "[]" init stalled_clock "Raised RequestException"]
  show ?thesis by simp
qed

text \<open>
  C4 as amended. With a positive cap \<open>MAX_TRACK_POINTS\<close> (10 as shipped), no track is
  ever longer than the cap: not after any run of cycles from the initial state, and not after a cycle
  started from any state whose tracks are within the cap. A key observed in a cycle ends
  with the last \<open>MAX_TRACK_POINTS\<close> positions of its old track followed by the positions
  reported in the cycle, so the oldest go first. Eleven cycles that report \<open>XYZ\<close> at
  eleven positions leave, with the cap 10, exactly the positions of cycles 2 to 11.
\<close>

theorem track_history_bounded_fifo:
  assumes "0 < MAX_TRACK_POINTS C"
  shows "(\<forall>k t. aircraft_tracks (run E C init ticks) k = Some t \<longrightarrow>
            int (length t) \<le> MAX_TRACK_POINTS C)
         \<and> (tracks_bounded C st \<longrightarrow> tracks_bounded C (snd (fetch_aircraft_data E C clock got st)))
         \<and> (\<forall>k \<in> ob_key ` set (seen E C clock got).
               aircraft_tracks (snd (fetch_aircraft_data E C clock got st)) k =
                 Some (last_n (nat (MAX_TRACK_POINTS C))
                        (track_of st k @ positions_of k (seen E C clock got))))
         \<and> aircraft_tracks (run sample_env shipped init xyz_ticks) (KStr ''XYZ'') =
             Some (map (\<lambda>i. (JInt i, JInt (- i))) [2, 3, 4, 5, 6, 7, 8, 9, 10, 11])"
proof -
  have "tracks_bounded C (run E C init ticks)"
    using assms by (rule run_bounded) (rule bounded_init)
  then have a: "\<forall>k t. aircraft_tracks (run E C init ticks) k = Some t \<longrightarrow>
            int (length t) \<le> MAX_TRACK_POINTS C"
    by (simp add: tracks_bounded_def)
  have b: "tracks_bounded C st \<longrightarrow> tracks_bounded C (snd (fetch_aircraft_data E C clock got st))"
    using assms by (simp add: fetch_bounded)
  have c: "\<forall>k \<in> ob_key ` set (seen E C clock got).
               aircraft_tracks (snd (fetch_aircraft_data E C clock got st)) k =
                 Some (last_n (nat (MAX_TRACK_POINTS C))
                        (track_of st k @ positions_of k (seen E C clock got)))"
    using assms by (blast intro: fetch_track_of_seen)
  have d: "aircraft_tracks (run sample_env shipped init xyz_ticks) (KStr ''XYZ'') =
             Some (map (\<lambda>i. (JInt i, JInt (- i))) [2, 3, 4, 5, 6, 7, 8, 9, 10, 11])"
    by (rule xyz_scenario)
  from a b c d show ?thesis by blast
qed

theorem track_history_bounded_fifo_witness:
  "0 < MAX_TRACK_POINTS shipped
   \<and> aircraft_tracks (run sample_env shipped init xyz_ticks) (KStr ''XYZ'') =
       Some (map (\<lambda>i. (JInt i, JInt (- i))) [2, 3, 4, 5, 6, 7, 8, 9, 10, 11])
   \<and> int (length (map (\<lambda>i. (JInt i, JInt (- i)) :: int json \<times> int json)
         [2, 3, 4, 5, 6, 7, 8, 9, 10, 11])) \<le> MAX_TRACK_POINTS shipped
   \<and> tracks_bounded shipped (init :: (int, int) tracker)
   \<and> tracks_bounded shipped
        (snd (fetch_aircraft_data sample_env shipped stalled_clock (Payload twice) init))
   \<and> KStr ''a1b2c3'' \<in> ob_key ` set (seen sample_env shipped stalled_clock (Payload twice))
   \<and> aircraft_tracks (snd (fetch_aircraft_data sample_env shipped stalled_clock (Payload twice) init))
        (KStr ''a1b2c3'') =
       Some (last_n (nat (MAX_TRACK_POINTS shipped))
              (track_of (init :: (int, int) tracker) (KStr ''a1b2c3'') @
               positions_of (KStr ''a1b2c3'') (seen sample_env shipped stalled_clock (Payload twice))))"
proof -
  have pos: "0 < MAX_TRACK_POINTS shipped"
    by (simp add: shipped_def)
  have start: "tracks_bounded shipped (init :: (int, int) tracker)"
    by (rule bounded_init)
  have mem: "KStr ''a1b2c3'' \<in> ob_key ` set (seen sample_env shipped stalled_clock (Payload twice))"
    by code_simp
  note T = track_history_bounded_fifo [where C = shipped and E = sample_env and ticks = xyz_ticks
      and st = "init :: (int, int) tracker" and clock = stalled_clock and got = "Payload twice", OF pos]
  from T start have after: "tracks_bounded shipped
        (snd (fetch_aircraft_data sample_env shipped stalled_clock (Payload twice) init))"
    by blast
  from T mem have track: "aircraft_tracks
        (snd (fetch_aircraft_data sample_env shipped stalled_clock (Payload twice) init))
        (KStr ''a1b2c3'') =
       Some (last_n (nat (MAX_TRACK_POINTS shipped))
              (track_of (init :: (int, int) tracker) (KStr ''a1b2c3'') @
               positions_of (KStr ''a1b2c3'') (seen sample_env shipped stalled_clock (Payload twice))))"
    by blast
  from T have xyz: "aircraft_tracks (run sample_env shipped init xyz_ticks) (KStr ''XYZ'') =
       Some (map (\<lambda>i. (JInt i, JInt (- i))) [2, 3, 4, 5, 6, 7, 8, 9, 10, 11])"
    by blast
  from T xyz have len: "int (length (map (\<lambda>i. (JInt i, JInt (- i)) :: int json \<times> int json)
         [2, 3, 4, 5, 6, 7, 8, 9, 10, 11])) \<le> MAX_TRACK_POINTS shipped"
    by blast
  from pos xyz len start after mem track show ?thesis by blast
qed

text \<open>
  C4 as stated fails when the constant is set to 0: \<open>track[-0:]\<close> is the whole list, so
  nothing is cut and one cycle that reports a key twice leaves a track of two points.
\<close>

theorem zero_cap_keeps_every_point:
  "MAX_TRACK_POINTS uncapped = 0
   \<and> fst (fetch_aircraft_data sample_env uncapped stalled_clock (Payload twice) init)
   \<and> aircraft_tracks (snd (fetch_aircraft_data sample_env uncapped stalled_clock (Payload twice) init))
        (KStr ''a1b2c3'') = Some [(JInt 1, JInt 2), (JInt 3, JInt 4)]"
  by code_simp

text \<open>
  C5. With \<open>KEEP_ALL_TRACKS = 0\<close>, after a successful cycle the keys that have a track
  are exactly the keys observed in that cycle, so every track of a key that was not
  observed is gone. With \<open>KEEP_ALL_TRACKS\<close> different from 0, in particular 1, a key that
  has a track keeps one through any run of cycles, successful or not.
\<close>

theorem retention_policy:
  "(KEEP_ALL_TRACKS C = 0 \<and> fst (fetch_aircraft_data E C clock got st) \<longrightarrow>
      dom (aircraft_tracks (snd (fetch_aircraft_data E C clock got st))) =
        ob_key ` set (seen E C clock got)
      \<and> (\<forall>k. k \<notin> ob_key ` set (seen E C clock got) \<longrightarrow>
             aircraft_tracks (snd (fetch_aircraft_data E C clock got st)) k = None))
   \<and> (KEEP_ALL_TRACKS C \<noteq> 0 \<longrightarrow>
        dom (aircraft_tracks st) \<subseteq> dom (aircraft_tracks (run E C st ticks)))"
proof -
  have "KEEP_ALL_TRACKS C = 0 \<and> fst (fetch_aircraft_data E C clock got st) \<longrightarrow>
      dom (aircraft_tracks (snd (fetch_aircraft_data E C clock got st))) =
        ob_key ` set (seen E C clock got)
      \<and> (\<forall>k. k \<notin> ob_key ` set (seen E C clock got) \<longrightarrow>
             aircraft_tracks (snd (fetch_aircraft_data E C clock got st)) k = None)"
    using fetch_pruned_dom [of C E clock got st] by (auto simp: domIff)
  moreover have "KEEP_ALL_TRACKS C \<noteq> 0 \<longrightarrow>
        dom (aircraft_tracks st) \<subseteq> dom (aircraft_tracks (run E C st ticks))"
    by (simp add: run_keeps_tracks)
  ultimately show ?thesis by blast
qed

theorem retention_policy_witness:
  "KEEP_ALL_TRACKS shipped = 0
   \<and> aircraft_tracks (snd (fetch_aircraft_data sample_env shipped stalled_clock (Payload both) init))
        (KStr ''a1b2c3'') = Some [(JInt 1, JInt 2)]
   \<and> fst (fetch_aircraft_data sample_env shipped stalled_clock (Payload only_second)
        (snd (fetch_aircraft_data sample_env shipped stalled_clock (Payload both) init)))
   \<and> KStr ''a1b2c3'' \<notin> ob_key ` set (seen sample_env shipped stalled_clock (Payload only_second))
   \<and> aircraft_tracks (snd (fetch_aircraft_data sample_env shipped stalled_clock (Payload only_second)
        (snd (fetch_aircraft_data sample_env shipped stalled_clock (Payload both) init))))
        (KStr ''a1b2c3'') = None
   \<and> KEEP_ALL_TRACKS keep_all \<noteq> 0
   \<and> aircraft_tracks (snd (fetch_aircraft_data sample_env keep_all stalled_clock (Payload both) init))
        (KStr ''a1b2c3'') = Some [(JInt 1, JInt 2)]
   \<and> KStr ''a1b2c3'' \<notin> ob_key ` set (seen sample_env keep_all stalled_clock (Payload only_second))
   \<and> aircraft_tracks (run sample_env keep_all init two_ticks) (KStr ''a1b2c3'') \<noteq> None"
proof -
  let ?k = "KStr ''a1b2c3'' :: int key"
  let ?st = "snd (fetch_aircraft_data sample_env shipped stalled_clock (Payload both) init)"
  let ?sk = "snd (fetch_aircraft_data sample_env keep_all stalled_clock (Payload both) init)"
  have zero: "KEEP_ALL_TRACKS shipped = 0" by (simp add: shipped_def)
  have one: "KEEP_ALL_TRACKS keep_all \<noteq> 0" by (simp add: keep_all_def shipped_def)
  have had: "aircraft_tracks ?st ?k = Some [(JInt 1, JInt 2)]"
    by code_simp
  have hadk: "aircraft_tracks ?sk ?k = Some [(JInt 1, JInt 2)]"
    by code_simp
  have it: "iterable only_second"
    by code_simp
  have run2: "fst (observations sample_env shipped stalled_clock 0 (records_of only_second)) = None"
    by code_simp
  have ok: "fst (fetch_aircraft_data sample_env shipped stalled_clock (Payload only_second) ?st)"
    using it run2 by (simp add: fetch_fst)
  have unseen: "?k \<notin> ob_key ` set (seen sample_env shipped stalled_clock (Payload only_second))"
    by code_simp
  have unseenk: "?k \<notin> ob_key ` set (seen sample_env keep_all stalled_clock (Payload only_second))"
    by code_simp
  note P = retention_policy [where C = shipped and E = sample_env and clock = stalled_clock
      and got = "Payload only_second" and st = ?st and ticks = "[]"]
  from P zero ok unseen have gone:
    "aircraft_tracks (snd (fetch_aircraft_data sample_env shipped stalled_clock (Payload only_second) ?st))
       ?k = None"
    by blast
  note K = retention_policy [where C = keep_all and E = sample_env and clock = stalled_clock
      and got = "Payload only_second" and st = ?sk and ticks = "[(stalled_clock, Payload only_second)]"]
  from K one have "dom (aircraft_tracks ?sk) \<subseteq>
      dom (aircraft_tracks (run sample_env keep_all ?sk [(stalled_clock, Payload only_second)]))"
    by blast
  moreover from hadk have "?k \<in> dom (aircraft_tracks ?sk)" by blast
  ultimately have "?k \<in> dom (aircraft_tracks (run sample_env keep_all ?sk
      [(stalled_clock, Payload only_second)]))"
    by blast
  moreover have "run sample_env keep_all init two_ticks =
      run sample_env keep_all ?sk [(stalled_clock, Payload only_second)]"
    by (simp add: two_ticks_def)
  ultimately have kept: "aircraft_tracks (run sample_env keep_all init two_ticks) ?k \<noteq> None"
    by (simp add: domIff)
  from zero had ok unseen gone one hadk unseenk kept show ?thesis by blast
qed

text \<open>
  C6. After a successful cycle the table is exactly the table built from the accepted
  observations of that cycle: it does not depend on the table before or on the retention
  policy, its keys are the keys observed in the cycle, and the last observation of a key
  provides the entry.
\<close>

theorem table_replaced_wholesale:
  assumes "fst (fetch_aircraft_data E C clock (Payload data) st)"
  shows "current_aircraft (snd (fetch_aircraft_data E C clock (Payload data) st)) =
           map_of (rev (map (\<lambda>ob. (ob_key ob, ob_entry ob)) (accepted E C clock data)))
         \<and> dom (current_aircraft (snd (fetch_aircraft_data E C clock (Payload data) st))) =
             ob_key ` set (accepted E C clock data)
         \<and> (\<forall>i < length (accepted E C clock data).
               (\<forall>j. i < j \<and> j < length (accepted E C clock data) \<longrightarrow>
                  ob_key (accepted E C clock data ! j) \<noteq> ob_key (accepted E C clock data ! i)) \<longrightarrow>
               current_aircraft (snd (fetch_aircraft_data E C clock (Payload data) st))
                 (ob_key (accepted E C clock data ! i)) =
                 Some (ob_entry (accepted E C clock data ! i)))"
proof -
  have t: "current_aircraft (snd (fetch_aircraft_data E C clock (Payload data) st)) =
             table_of (accepted E C clock data)"
    using assms by (rule fetch_success_fields)
  show ?thesis
    unfolding t by (simp add: table_of_map_of [symmetric] dom_table_of table_of_last)
qed

theorem table_replaced_wholesale_witness:
  "fst (fetch_aircraft_data sample_env shipped stalled_clock (Payload twice) init)
   \<and> dom (current_aircraft (snd (fetch_aircraft_data sample_env shipped stalled_clock (Payload twice) init))) =
       ob_key ` set (accepted sample_env shipped stalled_clock twice)
   \<and> map ob_key (accepted sample_env shipped stalled_clock twice) = [KStr ''a1b2c3'', KStr ''a1b2c3'']
   \<and> current_aircraft (snd (fetch_aircraft_data sample_env shipped stalled_clock (Payload twice) init))
        (KStr ''a1b2c3'') =
       Some \<lparr> ac_lat = JInt 3, ac_lon = JInt 4, ac_alt = 30000, ac_flight = ''TEST1'', ac_gs = JInt 450 \<rparr>"
proof -
  have ok: "fst (fetch_aircraft_data sample_env shipped stalled_clock (Payload twice) init)"
    by code_simp
  have keys: "map ob_key (accepted sample_env shipped stalled_clock twice) =
                [KStr ''a1b2c3'', KStr ''a1b2c3'']"
    by code_simp
  have entry: "ob_entry (accepted sample_env shipped stalled_clock twice ! 1) =
      \<lparr> ac_lat = JInt 3, ac_lon = JInt 4, ac_alt = 30000, ac_flight = ''TEST1'', ac_gs = JInt 450 \<rparr>"
    by code_simp
  have len: "length (accepted sample_env shipped stalled_clock twice) = 2"
    using keys by (metis length_map length_Cons list.size(3) numeral_2_eq_2)
  have key1: "ob_key (accepted sample_env shipped stalled_clock twice ! 1) = KStr ''a1b2c3''"
    using keys len by (metis nth_map one_less_numeral_iff semiring_norm(76) nth_Cons_0 nth_Cons_Suc One_nat_def)
  note T = table_replaced_wholesale [OF ok]
  have "1 < length (accepted sample_env shipped stalled_clock twice)"
    using len by simp
  moreover have "\<And>j. 1 < j \<and> j < length (accepted sample_env shipped stalled_clock twice) \<Longrightarrow>
      ob_key (accepted sample_env shipped stalled_clock twice ! j) \<noteq>
      ob_key (accepted sample_env shipped stalled_clock twice ! 1)"
    using len by linarith
  ultimately have last: "current_aircraft
      (snd (fetch_aircraft_data sample_env shipped stalled_clock (Payload twice) init))
      (ob_key (accepted sample_env shipped stalled_clock twice ! 1)) =
      Some (ob_entry (accepted sample_env shipped stalled_clock twice ! 1))"
    using T [THEN conjunct2, THEN conjunct2, rule_format, of 1] by blast
  from T [THEN conjunct2, THEN conjunct1] ok keys last show ?thesis
    by (simp only: key1 entry simp_thms)
qed

text \<open>
  C7 fails on the code. The conversion of the groundspeed is guarded by
  \<open>except ValueError\<close> only. A groundspeed that is a list makes \<open>float\<close> raise
  \<open>TypeError\<close>: no unknown marker is appended for the record, the cycle returns
  \<open>False\<close> and the groundspeed series stays as it was.
\<close>

theorem unconvertible_groundspeed_gets_no_marker:
  "py_float sample_env (JArr [JInt 450]) = Inl TypeError
   \<and> gs_float_of sample_env (JArr [JInt 450]) = Inl TypeError
   \<and> \<not> fst (fetch_aircraft_data sample_env shipped stalled_clock (Payload listed_speed) init)
   \<and> fst (observations sample_env shipped stalled_clock 0 (records_of listed_speed)) = Some TypeError
   \<and> all_groundspeeds (snd (fetch_aircraft_data sample_env shipped stalled_clock (Payload listed_speed) init)) = []
   \<and> current_aircraft (snd (fetch_aircraft_data sample_env shipped stalled_clock (Payload listed_speed) init))
        (KStr ''a1b2c3'') = None"
  by code_simp

text \<open>
  C8 as amended. A successful cycle returns the bare value \<open>True\<close>, the same for every
  payload, and no count. The number of observations accepted in the cycle is the number
  of records that the drop rules let through, and each of the three series grows by
  exactly that number; the table, whose size the map shows as the aircraft count, has at
  most that many entries.
\<close>

theorem success_counts_only_in_state:
  assumes "fst (fetch_aircraft_data E C clock (Payload data) st)"
  shows "fetch_aircraft_data E C clock (Payload data) st =
           (True, snd (fetch_aircraft_data E C clock (Payload data) st))
         \<and> length (accepted E C clock data) =
             length (filter (\<lambda>ac. \<not> dropped E ac) (records_of data))
         \<and> length (all_distances (snd (fetch_aircraft_data E C clock (Payload data) st))) =
             length (all_distances st) + length (accepted E C clock data)
         \<and> length (all_altitudes (snd (fetch_aircraft_data E C clock (Payload data) st))) =
             length (all_altitudes st) + length (accepted E C clock data)
         \<and> length (all_groundspeeds (snd (fetch_aircraft_data E C clock (Payload data) st))) =
             length (all_groundspeeds st) + length (accepted E C clock data)
         \<and> card (dom (current_aircraft (snd (fetch_aircraft_data E C clock (Payload data) st))))
             \<le> length (accepted E C clock data)"
proof -
  have "fetch_aircraft_data E C clock (Payload data) st =
           (True, snd (fetch_aircraft_data E C clock (Payload data) st))"
    using assms by (simp add: prod_eq_iff)
  moreover note success_count [OF assms]
  moreover have "length (all_distances (snd (fetch_aircraft_data E C clock (Payload data) st))) =
             length (all_distances st) + length (accepted E C clock data)"
    by (simp add: fetch_success_fields [OF assms])
  moreover have "length (all_altitudes (snd (fetch_aircraft_data E C clock (Payload data) st))) =
             length (all_altitudes st) + length (accepted E C clock data)"
    by (simp add: fetch_success_fields [OF assms])
  moreover have "length (all_groundspeeds (snd (fetch_aircraft_data E C clock (Payload data) st))) =
             length (all_groundspeeds st) + length (accepted E C clock data)"
    by (simp add: fetch_success_fields [OF assms])
  moreover have "card (dom (current_aircraft (snd (fetch_aircraft_data E C clock (Payload data) st))))
             \<le> length (accepted E C clock data)"
    by (simp add: fetch_success_fields [OF assms] table_card)
  ultimately show ?thesis by blast
qed

theorem success_counts_only_in_state_witness:
  "fst (fetch_aircraft_data sample_env shipped stalled_clock (Payload mixed) init)
   \<and> length (accepted sample_env shipped stalled_clock mixed) =
       length (filter (\<lambda>ac. \<not> dropped sample_env ac) (records_of mixed))
   \<and> length (all_distances (snd (fetch_aircraft_data sample_env shipped stalled_clock (Payload mixed) init))) =
       length (all_distances (init :: (int, int) tracker)) + length (accepted sample_env shipped stalled_clock mixed)
   \<and> length (accepted sample_env shipped stalled_clock mixed) = 2
   \<and> length (records_of mixed) = 3"
proof -
  have ok: "fst (fetch_aircraft_data sample_env shipped stalled_clock (Payload mixed) init)"
    by code_simp
  have two: "length (accepted sample_env shipped stalled_clock mixed) = 2"
    by code_simp
  have three: "length (records_of mixed) = 3"
    by code_simp
  from success_counts_only_in_state [OF ok] ok two three show ?thesis by blast
qed

text \<open>
  C8 as stated fails: two successful cycles return the same value although one accepts
  no observation and the other accepts two.
\<close>

theorem success_result_carries_no_count:
  "fst (fetch_aircraft_data sample_env shipped stalled_clock (Payload (snapshot [])) init)
   \<and> fst (fetch_aircraft_data sample_env shipped stalled_clock (Payload mixed) init)
   \<and> fst (fetch_aircraft_data sample_env shipped stalled_clock (Payload (snapshot [])) init) =
       fst (fetch_aircraft_data sample_env shipped stalled_clock (Payload mixed) init)
   \<and> length (all_distances (snd (fetch_aircraft_data sample_env shipped stalled_clock
        (Payload (snapshot [])) init))) = 0
   \<and> length (all_distances (snd (fetch_aircraft_data sample_env shipped stalled_clock
        (Payload mixed) init))) = 2"
  by code_simp

text \<open>
  C9 as amended. The \<open>i\<close>-th record accepted in a cycle is processed under the \<open>i\<close>-th
  clock reading of that cycle, and when it has no \<open>'hex'\<close> field its key is the text of
  that reading, whatever other records the payload holds. Two accepted records without
  \<open>'hex'\<close>, in one cycle or in two, therefore get the same key exactly when their
  readings print alike; nothing else makes the keys unique. After a successful cycle the
  accepted records are the records of the payload that the drop rules let through.
\<close>

theorem synthetic_key_is_clock_reading:
  "(\<forall>i < length (accepted E C clock data).
      observe E C (clock i) (accepted_records E C clock data ! i) =
        Inr (Some (accepted E C clock data ! i))
      \<and> (anonymous (accepted_records E C clock data ! i) \<longrightarrow>
           ob_key (accepted E C clock data ! i) = KStr (clock i)))
   \<and> length (accepted_records E C clock data) = length (accepted E C clock data)
   \<and> (fst (fetch_aircraft_data E C clock (Payload data) st) \<longrightarrow>
        accepted_records E C clock data = filter (\<lambda>ac. \<not> dropped E ac) (records_of data))
   \<and> (\<forall>i j. i < length (accepted E C clock data) \<and> j < length (accepted E C clock' data')
          \<and> anonymous (accepted_records E C clock data ! i)
          \<and> anonymous (accepted_records E C clock' data' ! j)
          \<longrightarrow> (ob_key (accepted E C clock data ! i) = ob_key (accepted E C clock' data' ! j)
                \<longleftrightarrow> clock i = clock' j))"
proof -
  have a: "\<forall>i < length (accepted E C clock data).
      observe E C (clock i) (accepted_records E C clock data ! i) =
        Inr (Some (accepted E C clock data ! i))
      \<and> (anonymous (accepted_records E C clock data ! i) \<longrightarrow>
           ob_key (accepted E C clock data ! i) = KStr (clock i))"
    by (simp add: accepted_record_observed accepted_anonymous_key)
  have b: "length (accepted_records E C clock data) = length (accepted E C clock data)"
    by (simp add: accepted_records_def accepted_def sources_length)
  have c: "fst (fetch_aircraft_data E C clock (Payload data) st) \<longrightarrow>
        accepted_records E C clock data = filter (\<lambda>ac. \<not> dropped E ac) (records_of data)"
    by (simp add: fetch_fst accepted_records_def sources_success)
  have d: "\<forall>i j. i < length (accepted E C clock data) \<and> j < length (accepted E C clock' data')
          \<and> anonymous (accepted_records E C clock data ! i)
          \<and> anonymous (accepted_records E C clock' data' ! j)
          \<longrightarrow> (ob_key (accepted E C clock data ! i) = ob_key (accepted E C clock' data' ! j)
                \<longleftrightarrow> clock i = clock' j)"
    by (simp add: accepted_anonymous_key)
  from a b c d show ?thesis by blast
qed

theorem synthetic_key_is_clock_reading_witness:
  "1 < length (accepted sample_env shipped stalled_clock company)
   \<and> anonymous (accepted_records sample_env shipped stalled_clock company ! 1)
   \<and> ob_key (accepted sample_env shipped stalled_clock company ! 1) = KStr (stalled_clock 1)
   \<and> 0 < length (accepted sample_env shipped stalled_clock strangers)
   \<and> anonymous (accepted_records sample_env shipped stalled_clock strangers ! 0)
   \<and> (ob_key (accepted sample_env shipped stalled_clock company ! 1) =
          ob_key (accepted sample_env shipped stalled_clock strangers ! 0))
       = (stalled_clock 1 = stalled_clock 0)"
proof -
  have l1: "1 < length (accepted sample_env shipped stalled_clock company)"
    by code_simp
  have a1: "anonymous (accepted_records sample_env shipped stalled_clock company ! 1)"
    by code_simp
  have l2: "0 < length (accepted sample_env shipped stalled_clock strangers)"
    by code_simp
  have a2: "anonymous (accepted_records sample_env shipped stalled_clock strangers ! 0)"
    by code_simp
  note T = synthetic_key_is_clock_reading [where E = sample_env and C = shipped
      and clock = stalled_clock and data = company and clock' = stalled_clock
      and data' = strangers and st = "init :: (int, int) tracker"]
  from T l1 a1 have k: "ob_key (accepted sample_env shipped stalled_clock company ! 1) =
      KStr (stalled_clock 1)"
    by blast
  from T l1 a1 l2 a2 have e: "(ob_key (accepted sample_env shipped stalled_clock company ! 1) =
          ob_key (accepted sample_env shipped stalled_clock strangers ! 0))
       = (stalled_clock 1 = stalled_clock 0)"
    by blast
  from l1 a1 k l2 a2 e show ?thesis by blast
qed

text \<open>
  C9 as stated fails: two records without \<open>'hex'\<close> in one payload, handled while the
  clock shows one reading, get the same key, and the table keeps one entry for both.
\<close>

theorem synthetic_keys_collide:
  "fst (fetch_aircraft_data sample_env shipped stalled_clock (Payload strangers) init)
   \<and> map ob_key (accepted sample_env shipped stalled_clock strangers) =
       [KStr ''1762272000.25'', KStr ''1762272000.25'']
   \<and> map ob_pos (accepted sample_env shipped stalled_clock strangers) =
       [(JInt 1, JInt 2), (JInt 3, JInt 4)]"
  by code_simp

text \<open>
  C10. In a successful cycle every accepted record adds one entry to each of the three
  series and, with a positive cap, one position to the track of its key: the track of an
  observed key ends as the last \<open>MAX_TRACK_POINTS\<close> of the old track followed by all
  positions that the cycle reported for the key. The table keeps one entry per key, so
  when a key occurs in two accepted records the table has fewer entries than the series
  received.
\<close>

theorem repeated_key_in_one_cycle:
  assumes "0 < MAX_TRACK_POINTS C"
    and "fst (fetch_aircraft_data E C clock (Payload data) st)"
  shows "(\<forall>k \<in> ob_key ` set (accepted E C clock data).
            aircraft_tracks (snd (fetch_aircraft_data E C clock (Payload data) st)) k =
              Some (last_n (nat (MAX_TRACK_POINTS C))
                     (track_of st k @ positions_of k (accepted E C clock data))))
         \<and> length (all_distances (snd (fetch_aircraft_data E C clock (Payload data) st))) =
             length (all_distances st) + length (accepted E C clock data)
         \<and> length (all_altitudes (snd (fetch_aircraft_data E C clock (Payload data) st))) =
             length (all_altitudes st) + length (accepted E C clock data)
         \<and> length (all_groundspeeds (snd (fetch_aircraft_data E C clock (Payload data) st))) =
             length (all_groundspeeds st) + length (accepted E C clock data)
         \<and> dom (current_aircraft (snd (fetch_aircraft_data E C clock (Payload data) st))) =
             ob_key ` set (accepted E C clock data)
         \<and> (\<not> distinct (map ob_key (accepted E C clock data)) \<longrightarrow>
               card (dom (current_aircraft (snd (fetch_aircraft_data E C clock (Payload data) st))))
                 < length (accepted E C clock data))"
proof -
  have a: "\<forall>k \<in> ob_key ` set (accepted E C clock data).
            aircraft_tracks (snd (fetch_aircraft_data E C clock (Payload data) st)) k =
              Some (last_n (nat (MAX_TRACK_POINTS C))
                     (track_of st k @ positions_of k (accepted E C clock data)))"
    using fetch_track_of_seen [OF assms(1), of _ E clock "Payload data" st]
    by (simp add: seen_def)
  have b: "length (all_distances (snd (fetch_aircraft_data E C clock (Payload data) st))) =
             length (all_distances st) + length (accepted E C clock data)"
    by (simp add: fetch_success_fields [OF assms(2)])
  have c: "length (all_altitudes (snd (fetch_aircraft_data E C clock (Payload data) st))) =
             length (all_altitudes st) + length (accepted E C clock data)"
    by (simp add: fetch_success_fields [OF assms(2)])
  have d: "length (all_groundspeeds (snd (fetch_aircraft_data E C clock (Payload data) st))) =
             length (all_groundspeeds st) + length (accepted E C clock data)"
    by (simp add: fetch_success_fields [OF assms(2)])
  have e: "dom (current_aircraft (snd (fetch_aircraft_data E C clock (Payload data) st))) =
             ob_key ` set (accepted E C clock data)"
    by (simp add: fetch_success_fields [OF assms(2)] dom_table_of)
  have f: "\<not> distinct (map ob_key (accepted E C clock data)) \<longrightarrow>
               card (dom (current_aircraft (snd (fetch_aircraft_data E C clock (Payload data) st))))
                 < length (accepted E C clock data)"
    by (simp add: fetch_success_fields [OF assms(2)] table_card)
  from a b c d e f show ?thesis by blast
qed

theorem repeated_key_in_one_cycle_witness:
  "0 < MAX_TRACK_POINTS shipped
   \<and> fst (fetch_aircraft_data sample_env shipped stalled_clock (Payload twice) init)
   \<and> map ob_key (accepted sample_env shipped stalled_clock twice) = [KStr ''a1b2c3'', KStr ''a1b2c3'']
   \<and> aircraft_tracks (snd (fetch_aircraft_data sample_env shipped stalled_clock (Payload twice) init))
        (KStr ''a1b2c3'') =
       Some (last_n (nat (MAX_TRACK_POINTS shipped))
              (track_of (init :: (int, int) tracker) (KStr ''a1b2c3'') @
               positions_of (KStr ''a1b2c3'') (accepted sample_env shipped stalled_clock twice)))
   \<and> positions_of (KStr ''a1b2c3'') (accepted sample_env shipped stalled_clock twice) =
       [(JInt 1, JInt 2), (JInt 3, JInt 4)]
   \<and> length (all_distances (snd (fetch_aircraft_data sample_env shipped stalled_clock (Payload twice) init))) =
       length (all_distances (init :: (int, int) tracker)) + length (accepted sample_env shipped stalled_clock twice)
   \<and> card (dom (current_aircraft (snd (fetch_aircraft_data sample_env shipped stalled_clock (Payload twice) init))))
       < length (accepted sample_env shipped stalled_clock twice)"
proof -
  have pos: "0 < MAX_TRACK_POINTS shipped"
    by (simp add: shipped_def)
  have ok: "fst (fetch_aircraft_data sample_env shipped stalled_clock (Payload twice) init)"
    by code_simp
  have keys: "map ob_key (accepted sample_env shipped stalled_clock twice) =
                [KStr ''a1b2c3'', KStr ''a1b2c3'']"
    by code_simp
  have ps: "positions_of (KStr ''a1b2c3'') (accepted sample_env shipped stalled_clock twice) =
       [(JInt 1, JInt 2), (JInt 3, JInt 4)]"
    by code_simp
  have mem: "KStr ''a1b2c3'' \<in> ob_key ` set (accepted sample_env shipped stalled_clock twice)"
    by code_simp
  have dup: "\<not> distinct (map ob_key (accepted sample_env shipped stalled_clock twice))"
    by (simp add: keys)
  note T = repeated_key_in_one_cycle [OF pos ok]
  from T mem have track: "aircraft_tracks
        (snd (fetch_aircraft_data sample_env shipped stalled_clock (Payload twice) init))
        (KStr ''a1b2c3'') =
       Some (last_n (nat (MAX_TRACK_POINTS shipped))
              (track_of (init :: (int, int) tracker) (KStr ''a1b2c3'') @
               positions_of (KStr ''a1b2c3'') (accepted sample_env shipped stalled_clock twice)))"
    by blast
  from T have len: "length (all_distances
        (snd (fetch_aircraft_data sample_env shipped stalled_clock (Payload twice) init))) =
       length (all_distances (init :: (int, int) tracker)) + length (accepted sample_env shipped stalled_clock twice)"
    by blast
  from T dup have fewer: "card (dom (current_aircraft
        (snd (fetch_aircraft_data sample_env shipped stalled_clock (Payload twice) init))))
       < length (accepted sample_env shipped stalled_clock twice)"
    by blast
  from pos ok keys track ps len fewer show ?thesis by blast
qed

end
